theory Spec2Isabelle
  imports Complex_Main "HOL-Library.Word"
begin

section \<open>Data model of the chunked-messages store\<close>

text \<open>
  A JavaScript string is a sequence of UTF-16 code units; \<open>length\<close>, \<open>substring\<close> and
  \<open>+\<close> all count and move code units, so a string is a list of 16-bit words.
  A TypeScript \<open>number\<close> used as an index, a size or a clock value is an integer.
\<close>

type_synonym code_unit = "16 word"
type_synonym js_string = "code_unit list"

datatype stream_id = Stream1 | Stream2

datatype rating_t = Positive | Negative

text \<open>
  The type \<open>ChunkFeedback\<close>: every field is optional, \<open>None\<close> is an absent key.
  Its \<open>selectedText\<close> field is named \<open>fbSelectedText\<close> here, since the state has a
  field \<open>selectedText\<close> of its own.
\<close>

record ChunkFeedback =
  rating :: "rating_t option"
  comment :: "js_string option"
  fbSelectedText :: "js_string option"
  timestamp :: "int option"

text \<open>An object \<open>{stream1: ..., stream2: ...}\<close> and its access by a computed key.\<close>

record 'a per_stream =
  stream1 :: 'a
  stream2 :: 'a

fun get_stream :: "stream_id \<Rightarrow> 'a per_stream \<Rightarrow> 'a" where
  "get_stream Stream1 p = stream1 p"
| "get_stream Stream2 p = stream2 p"

fun set_stream :: "stream_id \<Rightarrow> 'a \<Rightarrow> 'a per_stream \<Rightarrow> 'a per_stream" where
  "set_stream Stream1 v p = p\<lparr>stream1 := v\<rparr>"
| "set_stream Stream2 v p = p\<lparr>stream2 := v\<rparr>"

text \<open>
  A JavaScript array that is written by index. \<open>elems\<close> are the positions
  \<open>0 .. length - 1\<close>, \<open>None\<close> being a hole or \<open>undefined\<close>; \<open>props\<close> holds what an
  assignment \<open>a[k] = v\<close> stores when \<open>k\<close> is not an array index (a negative number, or one
  above \<open>2^32 - 2\<close>): an ordinary property, which does not count for \<open>a.length\<close>.
\<close>

record 'a js_array =
  elems :: "'a option list"
  props :: "(int \<times> 'a) list"

definition is_array_index :: "int \<Rightarrow> bool" where
  "is_array_index k = (0 \<le> k \<and> k < 4294967295)"

definition js_length :: "'a js_array \<Rightarrow> nat" where
  "js_length a = length (elems a)"

text \<open>\<open>[...a]\<close>: a fresh array of the elements of \<open>a\<close>; other properties are not copied.\<close>

definition spread :: "'a js_array \<Rightarrow> 'a js_array" where
  "spread a = \<lparr>elems = elems a, props = []\<rparr>"

fun put_prop :: "int \<Rightarrow> 'a \<Rightarrow> (int \<times> 'a) list \<Rightarrow> (int \<times> 'a) list" where
  "put_prop k v [] = [(k, v)]"
| "put_prop k v (p # ps) = (if fst p = k then (k, v) # ps else p # put_prop k v ps)"

text \<open>
  \<open>a[k] = v\<close>: inside the array the position is overwritten; at or past the end the array
  grows to length \<open>k + 1\<close> and the positions in between are holes; for a \<open>k\<close> that is not an
  array index the value becomes a property and the elements stay as they are.
\<close>

definition js_array_set :: "'a js_array \<Rightarrow> int \<Rightarrow> 'a \<Rightarrow> 'a js_array" where
  "js_array_set a k v =
     (if is_array_index k then
        (if nat k < length (elems a)
         then a\<lparr>elems := (elems a)[nat k := Some v]\<rparr>
         else a\<lparr>elems := elems a @ replicate (nat k - length (elems a)) None @ [Some v]\<rparr>)
      else a\<lparr>props := put_prop k v (props a)\<rparr>)"

text \<open>\<open>a[k]\<close> read: \<open>None\<close> is \<open>undefined\<close>.\<close>

definition js_array_get :: "'a js_array \<Rightarrow> int \<Rightarrow> 'a option" where
  "js_array_get a k =
     (if is_array_index k then
        (if nat k < length (elems a) then elems a ! nat k else None)
      else map_of (props a) k)"

text \<open>\<open>xs[k]\<close> on a \<open>string[]\<close> that is only ever built by \<open>push\<close>.\<close>

definition chunk_at :: "js_string list \<Rightarrow> int \<Rightarrow> js_string option" where
  "chunk_at xs k = (if 0 \<le> k \<and> nat k < length xs then Some (xs ! nat k) else None)"

record activeFeedback_t =
  streamId :: "stream_id option"
  chunkIndex :: "int option"

text \<open>
  The state \<open>chunkedMessagesState\<close>. \<open>selectedText\<close> and \<open>activeFeedback\<close> are \<open>None\<close> when
  the object has no such key, which is what \<open>resetEverything\<close> leaves behind.
\<close>

record chunkedMessagesState =
  responses :: "js_string per_stream"
  chunks :: "js_string list per_stream"
  feedback :: "ChunkFeedback js_array per_stream"
  currentChunkIndices :: "int per_stream"
  isComplete :: bool
  isChunked :: bool
  selectedText :: "js_string option"
  activeFeedback :: "activeFeedback_t option"

definition INITIAL_STATE :: chunkedMessagesState where
  "INITIAL_STATE =
     \<lparr>responses = \<lparr>stream1 = [], stream2 = []\<rparr>,
      chunks = \<lparr>stream1 = [], stream2 = []\<rparr>,
      feedback = \<lparr>stream1 = \<lparr>elems = [], props = []\<rparr>, stream2 = \<lparr>elems = [], props = []\<rparr>\<rparr>,
      currentChunkIndices = \<lparr>stream1 = 0, stream2 = 0\<rparr>,
      isComplete = False,
      isChunked = False,
      selectedText = Some [],
      activeFeedback = Some \<lparr>streamId = None, chunkIndex = None\<rparr>\<rparr>"

section \<open>Chunk creation\<close>

text \<open>
  \<open>String.prototype.substring\<close>: both positions are clamped to \<open>[0, length]\<close> and swapped when
  the first is the larger.
\<close>

definition substring :: "js_string \<Rightarrow> int \<Rightarrow> int \<Rightarrow> js_string" where
  "substring text start stop =
     (let len = int (length text);
          a = max 0 (min start len);
          b = max 0 (min stop len);
          lo = min a b;
          hi = max a b
      in take (nat (hi - lo)) (drop (nat lo) text))"

text \<open>
  The loop of \<open>createTextChunks\<close>,
  \<^verbatim>\<open>for (let i = 0; i < text.length; i += maxChunkSize) chunks.push(text.substring(i, Math.min(i + maxChunkSize, text.length)))\<close>.
  Nothing bounds it when \<open>maxChunkSize\<close> is not positive, so not returning is the value
  \<open>None\<close>.
\<close>

partial_function (option) createTextChunks_loop ::
  "int \<Rightarrow> js_string \<Rightarrow> int \<Rightarrow> js_string list \<Rightarrow> js_string list option" where
  "createTextChunks_loop maxChunkSize text i acc =
     (if i < int (length text)
      then createTextChunks_loop maxChunkSize text (i + maxChunkSize)
             (acc @ [substring text i (min (i + maxChunkSize) (int (length text)))])
      else Some acc)"

definition createTextChunks :: "int \<Rightarrow> js_string \<Rightarrow> js_string list option" where
  "createTextChunks maxChunkSize text =
     (if text = [] then Some [] else createTextChunks_loop maxChunkSize text 0 [])"

definition empty_feedback :: ChunkFeedback where
  "empty_feedback = \<lparr>rating = None, comment = None, fbSelectedText = None, timestamp = None\<rparr>"

text \<open>\<open>Array(count).fill(null).map(() => ({}))\<close>\<close>

definition createEmptyFeedback :: "nat \<Rightarrow> ChunkFeedback js_array" where
  "createEmptyFeedback count = \<lparr>elems = replicate count (Some empty_feedback), props = []\<rparr>"

text \<open>\<open>createChunks(maxChunkSize = 800)\<close>: the argument is \<open>None\<close> when the caller passes none.\<close>

definition createChunks :: "int option \<Rightarrow> chunkedMessagesState \<Rightarrow> chunkedMessagesState option" where
  "createChunks arg state =
     (let maxChunkSize = (case arg of None \<Rightarrow> 800 | Some n \<Rightarrow> n) in
      case createTextChunks maxChunkSize (stream1 (responses state)) of
        None \<Rightarrow> None
      | Some stream1Chunks \<Rightarrow>
          (case createTextChunks maxChunkSize (stream2 (responses state)) of
             None \<Rightarrow> None
           | Some stream2Chunks \<Rightarrow>
               Some (state\<lparr>chunks := \<lparr>stream1 = stream1Chunks, stream2 = stream2Chunks\<rparr>,
                           feedback := \<lparr>stream1 = createEmptyFeedback (length stream1Chunks),
                                        stream2 = createEmptyFeedback (length stream2Chunks)\<rparr>\<rparr>)))"

text \<open>
  The segments of \<open>text\<close> by position: the pieces of \<open>n\<close> code units that start at
  \<open>i\<close>, \<open>i + n\<close>, \<open>i + 2 n\<close>, ... below the end of the text. The loop is compared with
  them.
\<close>

function slices :: "nat \<Rightarrow> 'a list \<Rightarrow> nat \<Rightarrow> 'a list list" where
  "slices n t i =
     (if 0 < n \<and> i < length t then take n (drop i t) # slices n t (i + n) else [])"
  by pat_completeness auto
termination
  by (relation "measure (\<lambda>(n, t, i). length t - i)") auto

section \<open>The other operations of the store\<close>

definition startFeedbackSession :: "chunkedMessagesState \<Rightarrow> chunkedMessagesState" where
  "startFeedbackSession state =
     state\<lparr>isChunked := True,
           currentChunkIndices := \<lparr>stream1 = 0, stream2 = 0\<rparr>,
           feedback := \<lparr>stream1 = createEmptyFeedback (length (stream1 (chunks state))),
                        stream2 = createEmptyFeedback (length (stream2 (chunks state)))\<rparr>\<rparr>"

definition updateStreamContent ::
  "stream_id \<Rightarrow> js_string \<Rightarrow> chunkedMessagesState \<Rightarrow> chunkedMessagesState" where
  "updateStreamContent sid content state =
     state\<lparr>responses := set_stream sid content (responses state)\<rparr>"

text \<open>\<open>completeStreams\<close> sets the flag and the cursors, then calls \<open>createChunks()\<close>.\<close>

definition completeStreams :: "chunkedMessagesState \<Rightarrow> chunkedMessagesState option" where
  "completeStreams state =
     createChunks None
       (state\<lparr>isComplete := True, currentChunkIndices := \<lparr>stream1 = 0, stream2 = 0\<rparr>\<rparr>)"

text \<open>
  \<open>recordFeedback\<close>; \<open>now\<close> is what \<open>Date.now()\<close> returns at the call. The source has no
  test of \<open>chunkIndex\<close> against any length.
\<close>

definition recordFeedback ::
  "stream_id \<Rightarrow> int \<Rightarrow> ChunkFeedback \<Rightarrow> int \<Rightarrow> chunkedMessagesState \<Rightarrow> chunkedMessagesState" where
  "recordFeedback sid idx chunkFeedback now state =
     (let streamFeedback = get_stream sid (feedback state);
          feedbackWithTimestamp = chunkFeedback\<lparr>timestamp := Some now\<rparr>;
          updatedFeedback = js_array_set (spread streamFeedback) idx feedbackWithTimestamp
      in state\<lparr>feedback := set_stream sid updatedFeedback (feedback state),
               selectedText := Some [],
               activeFeedback := Some \<lparr>streamId = None, chunkIndex = None\<rparr>\<rparr>)"

definition showNextChunk :: "chunkedMessagesState \<Rightarrow> chunkedMessagesState" where
  "showNextChunk state =
     (let nextIndex1 = stream1 (currentChunkIndices state) + 1;
          nextIndex2 = stream2 (currentChunkIndices state) + 1;
          maxIndex1 = int (length (stream1 (chunks state))) - 1;
          maxIndex2 = int (length (stream2 (chunks state))) - 1
      in state\<lparr>currentChunkIndices :=
                 \<lparr>stream1 = min nextIndex1 maxIndex1, stream2 = min nextIndex2 maxIndex2\<rparr>\<rparr>)"

text \<open>
  \<open>showNextChunkForStream\<close>. Its fallbacks for a missing \<open>chunkedMessages\<close>,
  \<open>currentChunkIndices\<close> or \<open>chunks\<close> never apply: no operation removes these keys.
\<close>

definition showNextChunkForStream ::
  "stream_id \<Rightarrow> chunkedMessagesState \<Rightarrow> chunkedMessagesState" where
  "showNextChunkForStream sid state =
     (let currentIndices = currentChunkIndices state;
          streamChunks = get_stream sid (chunks state);
          currentIndex = get_stream sid currentIndices;
          nextIndex = currentIndex + 1;
          maxIndex = max 0 (int (length streamChunks) - 1)
      in state\<lparr>chunks := chunks state,
               currentChunkIndices := set_stream sid (min nextIndex maxIndex) currentIndices\<rparr>)"

definition resetFeedbackSession :: "chunkedMessagesState \<Rightarrow> chunkedMessagesState" where
  "resetFeedbackSession state = INITIAL_STATE"

text \<open>
  \<open>resetEverything\<close> builds the object from six keys only: \<open>selectedText\<close> and
  \<open>activeFeedback\<close> are not among them.
\<close>

definition resetEverything :: "chunkedMessagesState \<Rightarrow> chunkedMessagesState" where
  "resetEverything state =
     \<lparr>responses = responses state,
      chunks = chunks state,
      feedback = \<lparr>stream1 = createEmptyFeedback (length (stream1 (chunks state))),
                  stream2 = createEmptyFeedback (length (stream2 (chunks state)))\<rparr>,
      currentChunkIndices = \<lparr>stream1 = 0, stream2 = 0\<rparr>,
      isComplete = True,
      isChunked = True,
      selectedText = None,
      activeFeedback = None\<rparr>"

definition setSelectedText ::
  "js_string \<Rightarrow> stream_id \<Rightarrow> int \<Rightarrow> chunkedMessagesState \<Rightarrow> chunkedMessagesState" where
  "setSelectedText text sid idx state =
     state\<lparr>selectedText := Some text,
           activeFeedback := Some \<lparr>streamId = Some sid, chunkIndex = Some idx\<rparr>\<rparr>"

definition clearSelectedText :: "chunkedMessagesState \<Rightarrow> chunkedMessagesState" where
  "clearSelectedText state =
     state\<lparr>selectedText := Some [],
           activeFeedback := Some \<lparr>streamId = None, chunkIndex = None\<rparr>\<rparr>"

definition getFeedbackForChunk ::
  "stream_id \<Rightarrow> int \<Rightarrow> chunkedMessagesState \<Rightarrow> ChunkFeedback option" where
  "getFeedbackForChunk sid idx state = js_array_get (get_stream sid (feedback state)) idx"

text \<open>The decorations: U+27A1 U+FE0F and a space; a space and U+2B05 U+FE0F.\<close>

definition decoration_prefix :: js_string where
  "decoration_prefix = [0x27A1, 0xFE0F, 0x20]"

definition decoration_suffix :: js_string where
  "decoration_suffix = [0x20, 0x2B05, 0xFE0F]"

text \<open>
  \<open>getDecoratedChunk\<close>: \<open>!chunks[chunkIndex]\<close> is true for \<open>undefined\<close> and for the empty
  string.
\<close>

definition getDecoratedChunk :: "stream_id \<Rightarrow> int \<Rightarrow> chunkedMessagesState \<Rightarrow> js_string" where
  "getDecoratedChunk sid idx state =
     (let streamChunks = get_stream sid (chunks state);
          currentIndex = get_stream sid (currentChunkIndices state)
      in case chunk_at streamChunks idx of
           None \<Rightarrow> []
         | Some chunk \<Rightarrow>
             if chunk = [] then []
             else if idx = currentIndex then decoration_prefix @ chunk @ decoration_suffix
             else chunk)"

section \<open>The store as a transition system\<close>

datatype action =
    StartFeedbackSession
  | UpdateStreamContent stream_id js_string
  | CompleteStreams
  | CreateChunks "int option"
  | RecordFeedback stream_id int ChunkFeedback int
  | ShowNextChunk
  | ShowNextChunkForStream stream_id
  | ResetFeedbackSession
  | ResetEverything
  | SetSelectedText js_string stream_id int
  | ClearSelectedText

fun step :: "action \<Rightarrow> chunkedMessagesState \<Rightarrow> chunkedMessagesState option" where
  "step StartFeedbackSession s = Some (startFeedbackSession s)"
| "step (UpdateStreamContent sid content) s = Some (updateStreamContent sid content s)"
| "step CompleteStreams s = completeStreams s"
| "step (CreateChunks arg) s = createChunks arg s"
| "step (RecordFeedback sid idx fb now) s = Some (recordFeedback sid idx fb now s)"
| "step ShowNextChunk s = Some (showNextChunk s)"
| "step (ShowNextChunkForStream sid) s = Some (showNextChunkForStream sid s)"
| "step ResetFeedbackSession s = Some (resetFeedbackSession s)"
| "step ResetEverything s = Some (resetEverything s)"
| "step (SetSelectedText text sid idx) s = Some (setSelectedText text sid idx s)"
| "step ClearSelectedText s = Some (clearSelectedText s)"

text \<open>
  The states of the store are those that a sequence of actions yields from \<open>INITIAL_STATE\<close>;
  \<open>run\<close> is \<open>None\<close> when one of the actions does not return.
\<close>

fun run :: "action list \<Rightarrow> chunkedMessagesState \<Rightarrow> chunkedMessagesState option" where
  "run [] s = Some s"
| "run (a # as) s = (case step a s of None \<Rightarrow> None | Some s' \<Rightarrow> run as s')"

text \<open>The invariants of the data model, as predicates on a state.\<close>

definition cursor_ok :: "stream_id \<Rightarrow> chunkedMessagesState \<Rightarrow> bool" where
  "cursor_ok sid s =
     (0 \<le> get_stream sid (currentChunkIndices s) \<and>
      get_stream sid (currentChunkIndices s) \<le> max 0 (int (length (get_stream sid (chunks s))) - 1))"

definition cursor_inv :: "chunkedMessagesState \<Rightarrow> bool" where
  "cursor_inv s = (cursor_ok Stream1 s \<and> cursor_ok Stream2 s)"

definition feedback_len_ok :: "stream_id \<Rightarrow> chunkedMessagesState \<Rightarrow> bool" where
  "feedback_len_ok sid s =
     (js_length (get_stream sid (feedback s)) = length (get_stream sid (chunks s)))"

definition feedback_len_inv :: "chunkedMessagesState \<Rightarrow> bool" where
  "feedback_len_inv s = (feedback_len_ok Stream1 s \<and> feedback_len_ok Stream2 s)"

text \<open>
  \<open>activeFeedback.streamId\<close> is non-null only if \<open>selectedText\<close> is non-empty. A state
  without the key \<open>activeFeedback\<close> has no stream reference.
\<close>

definition selection_inv :: "chunkedMessagesState \<Rightarrow> bool" where
  "selection_inv s =
     (case activeFeedback s of
        None \<Rightarrow> True
      | Some af \<Rightarrow>
          (case streamId af of
             None \<Rightarrow> True
           | Some sid \<Rightarrow> (case selectedText s of None \<Rightarrow> False | Some t \<Rightarrow> t \<noteq> [])))"

definition chunks_nonempty :: "chunkedMessagesState \<Rightarrow> bool" where
  "chunks_nonempty s = ([] \<notin> set (stream1 (chunks s)) \<and> [] \<notin> set (stream2 (chunks s)))"

section \<open>The streaming hook\<close>

text \<open>
  \<open>retry\<close> of \<open>useStreamChat\<close>. The test \<open>isUnauthorizedError\<close> is imported from the
  client package and defined outside these sources: it is a parameter of \<open>retry\<close>.
\<close>

definition retry :: "('e \<Rightarrow> bool) \<Rightarrow> int \<Rightarrow> 'e \<Rightarrow> bool" where
  "retry isUnauthorized failCount error =
     (if isUnauthorized error then failCount < 1 else False)"

text \<open>
  The error of the client, as \<open>client.ts\<close> constructs it:
  \<^verbatim>\<open>new CohereNetworkError('Something went wrong', response.status)\<close>.
\<close>

record CohereNetworkError =
  message :: js_string
  status :: int

text \<open>
  Modelled from the spec: \<open>isUnauthorizedError\<close> is missing from the sources; the spec
  calls the failure it recognises an authorization failure, "HTTP 401-equivalent".
\<close>

definition isUnauthorizedError :: "CohereNetworkError \<Rightarrow> bool" where
  "isUnauthorizedError e = (status e = 401)"

text \<open>
  A cached conversation: the three keys that \<open>getUpdatedConversations\<close> reads or writes;
  every other key of the object lives in the extension slot of the record.
  \<open>updatedAt\<close> is \<open>None\<close> while the object has no such key.
\<close>

record ConversationPublic =
  conv_id :: js_string
  description :: "js_string option"
  updatedAt :: "js_string option"

text \<open>
  \<open>getUpdatedConversations\<close>; \<open>nowISO\<close> is what \<open>new Date().toISOString()\<close> returns.
  An absent \<open>description\<close> argument takes the default \<open>''\<close>; an absent list stays absent.
\<close>

definition getUpdatedConversations ::
  "js_string option \<Rightarrow> js_string option \<Rightarrow> js_string
     \<Rightarrow> 'a ConversationPublic_scheme list option \<Rightarrow> 'a ConversationPublic_scheme list option" where
  "getUpdatedConversations conversationId descriptionArg nowISO conversations =
     (let descr = (case descriptionArg of None \<Rightarrow> [] | Some d \<Rightarrow> d) in
      map_option
        (map (\<lambda>c. if Some (conv_id c) \<noteq> conversationId then c
                  else c\<lparr>description := Some descr, updatedAt := Some nowISO\<rparr>))
        conversations)"

section \<open>Concrete states for the worked examples\<close>

text \<open>
  The state after the responses \<open>abc\<close> and \<open>d\<close> have arrived, the streams were completed and
  the chunks were created again with size 2; and a feedback entry as a panel submits it.
\<close>

definition example_actions :: "action list" where
  "example_actions =
     [UpdateStreamContent Stream1 [0x61, 0x62, 0x63], UpdateStreamContent Stream2 [0x64],
      CompleteStreams, CreateChunks (Some 2)]"

definition example_state :: chunkedMessagesState where
  "example_state =
     \<lparr>responses = \<lparr>stream1 = [0x61, 0x62, 0x63], stream2 = [0x64]\<rparr>,
      chunks = \<lparr>stream1 = [[0x61, 0x62], [0x63]], stream2 = [[0x64]]\<rparr>,
      feedback = \<lparr>stream1 = \<lparr>elems = [Some empty_feedback, Some empty_feedback], props = []\<rparr>,
                  stream2 = \<lparr>elems = [Some empty_feedback], props = []\<rparr>\<rparr>,
      currentChunkIndices = \<lparr>stream1 = 0, stream2 = 0\<rparr>,
      isComplete = True,
      isChunked = False,
      selectedText = Some [],
      activeFeedback = Some \<lparr>streamId = None, chunkIndex = None\<rparr>\<rparr>"

definition example_feedback :: ChunkFeedback where
  "example_feedback =
     \<lparr>rating = Some Positive, comment = Some [0x6F, 0x6B], fbSelectedText = None, timestamp = None\<rparr>"

section \<open>Chunk creation is a partition of the text\<close>

declare slices.simps [simp del]

lemma substring_slice:
  "0 \<le> i \<Longrightarrow> 0 < N \<Longrightarrow> i < int (length t) \<Longrightarrow>
   substring t i (min (i + N) (int (length t))) = take (nat N) (drop (nat i) t)"
  unfolding substring_def Let_def
  by (auto simp: min_def max_def nat_diff_distrib nat_add_distrib)

lemma loop_slices:
  "0 < N \<Longrightarrow> 0 \<le> i \<Longrightarrow>
   createTextChunks_loop N t i acc = Some (acc @ slices (nat N) t (nat i))"
proof (induction "length t - nat i" arbitrary: i acc rule: less_induct)
  case less
  show ?case
  proof (cases "i < int (length t)")
    case True
    have m: "length t - nat (i + N) < length t - nat i"
      using True less.prems by linarith
    have "createTextChunks_loop N t i acc =
          createTextChunks_loop N t (i + N)
            (acc @ [substring t i (min (i + N) (int (length t)))])"
      using True by (subst createTextChunks_loop.simps) simp
    also have "\<dots> = Some ((acc @ [substring t i (min (i + N) (int (length t)))])
                      @ slices (nat N) t (nat (i + N)))"
      using less.hyps [OF m] less.prems by simp
    also have "\<dots> = Some (acc @ slices (nat N) t (nat i))"
      using True less.prems
      by (subst (2) slices.simps) (simp add: substring_slice nat_add_distrib)
    finally show ?thesis .
  next
    case False
    then show ?thesis using less.prems
      by (subst createTextChunks_loop.simps, subst slices.simps) simp
  qed
qed

lemma concat_slices: "0 < n \<Longrightarrow> concat (slices n t i) = drop i t"
proof (induction n t i rule: slices.induct)
  case (1 n t i)
  show ?case
  proof (cases "i < length t")
    case True
    have d: "drop (i + n) t = drop n (drop i t)"
      by (simp add: add.commute)
    have "concat (slices n t i) = take n (drop i t) @ concat (slices n t (i + n))"
      using True 1(2) by (subst slices.simps) simp
    also have "\<dots> = take n (drop i t) @ drop n (drop i t)"
      using 1(1) True 1(2) d by simp
    finally show ?thesis by (simp only: append_take_drop_id)
  next
    case False
    then show ?thesis by (subst slices.simps) simp
  qed
qed

lemma div_step: "0 < (n::nat) \<Longrightarrow> (a + n) div n = Suc (a div n)"
  by simp

lemma div_one: "(n::nat) \<le> m \<Longrightarrow> m < 2 * n \<Longrightarrow> m div n = 1"
proof -
  assume a: "n \<le> m" "m < 2 * n"
  then have "0 < n" by linarith
  have "m = (m - n) + n" using a by simp
  then have "m div n = Suc ((m - n) div n)"
    using div_step [OF \<open>0 < n\<close>, of "m - n"] by simp
  moreover have "(m - n) div n = 0" using a by simp
  ultimately show ?thesis by simp
qed

lemma length_slices: "0 < n \<Longrightarrow> length (slices n t i) = (length t - i + n - 1) div n"
proof (induction n t i rule: slices.induct)
  case (1 n t i)
  show ?case
  proof (cases "i < length t")
    case True
    have "(length t - i + n - 1) div n = Suc ((length t - (i + n) + n - 1) div n)"
    proof (cases "i + n \<le> length t")
      case True
      then have e: "length t - i + n - 1 = (length t - (i + n) + n - 1) + n"
        using 1(2) by linarith
      show ?thesis unfolding e by (rule div_step [OF 1(2)])
    next
      case False
      then have a: "length t - (i + n) + n - 1 = n - 1" by simp
      have "length t - i + n - 1 < 2 * n" "n \<le> length t - i + n - 1"
        using False True by linarith+
      then have "(length t - i + n - 1) div n = 1"
        using div_one by blast
      then show ?thesis unfolding a using 1(2) by simp
    qed
    moreover have "length (slices n t i) = Suc (length (slices n t (i + n)))"
      using True 1(2) by (subst slices.simps) simp
    ultimately show ?thesis using 1(1) True 1(2) by simp
  next
    case False
    then show ?thesis using 1(2) by (subst slices.simps) simp
  qed
qed

lemma nth_slices:
  "0 < n \<Longrightarrow> k < length (slices n t i) \<Longrightarrow>
   slices n t i ! k = take n (drop (i + k * n) t)"
proof (induction n t i arbitrary: k rule: slices.induct)
  case (1 n t i)
  show ?case
  proof (cases "i < length t")
    case True
    note s = slices.simps [of n t i]
    show ?thesis
    proof (cases k)
      case 0
      then show ?thesis using True 1(2) by (simp add: s)
    next
      case (Suc j)
      then have "j < length (slices n t (i + n))"
        using 1(3) True 1(2) by (simp add: s)
      then have "slices n t (i + n) ! j = take n (drop (i + n + j * n) t)"
        using 1(1) True 1(2) by simp
      then show ?thesis using True 1(2) Suc by (simp add: s add.assoc add.commute)
    qed
  next
    case False
    then show ?thesis using 1(3) by (simp add: slices.simps [of n t i])
  qed
qed

lemma slices_bounds:
  "0 < n \<Longrightarrow> c \<in> set (slices n t i) \<Longrightarrow> 0 < length c \<and> length c \<le> n"
proof (induction n t i rule: slices.induct)
  case (1 n t i)
  show ?case
  proof (cases "i < length t")
    case True
    then show ?thesis using 1 by (auto simp: slices.simps [of n t i])
  next
    case False
    then show ?thesis using 1(3) by (simp add: slices.simps [of n t i])
  qed
qed

lemma neg_div_ceil:
  assumes N: "0 < (N::int)"
  shows "- (- a div N) = (a + N - 1) div N"
proof -
  define q where "q = (a + N - 1) div N"
  define r where "r = (a + N - 1) mod N"
  have e: "a + N - 1 = N * q + r"
    unfolding q_def r_def by simp
  have r: "0 \<le> r" "r < N"
    unfolding r_def using N by simp_all
  have "- a = N * (- q) + (N - 1 - r)"
    using e by (simp add: algebra_simps)
  moreover have "0 \<le> N - 1 - r" "N - 1 - r < N"
    using r by simp_all
  ultimately have "- a div N = - q"
    by (rule int_div_pos_eq)
  then show ?thesis by (simp add: q_def)
qed

lemma ceiling_nat_div:
  assumes N: "0 < N"
  shows "\<lceil>real n / real_of_int N\<rceil> = int ((n + nat N - 1) div nat N)"
proof -
  have "\<lceil>real n / real_of_int N\<rceil> = \<lceil>real_of_int (int n) / real_of_int N\<rceil>" by simp
  also have "\<dots> = - (- int n div N)" by (rule ceiling_divide_eq_div)
  also have "\<dots> = (int n + N - 1) div N" by (rule neg_div_ceil [OF N])
  also have "\<dots> = int (n + nat N - 1) div int (nat N)"
    using N by (simp add: of_nat_diff)
  also have "\<dots> = int ((n + nat N - 1) div nat N)"
    by (simp only: zdiv_int)
  finally show ?thesis .
qed

lemma createTextChunks_slices:
  "0 < N \<Longrightarrow> createTextChunks N t = Some (slices (nat N) t 0)"
  using loop_slices [of N 0 t "[]"]
  by (auto simp: createTextChunks_def slices.simps [of "nat N" "[]" 0])

lemma createChunks_Some:
  assumes "0 < N"
  shows "createChunks (Some N) s =
     Some (s\<lparr>chunks := \<lparr>stream1 = slices (nat N) (stream1 (responses s)) 0,
                          stream2 = slices (nat N) (stream2 (responses s)) 0\<rparr>,
             feedback :=
               \<lparr>stream1 = createEmptyFeedback (length (slices (nat N) (stream1 (responses s)) 0)),
                stream2 = createEmptyFeedback (length (slices (nat N) (stream2 (responses s)) 0))\<rparr>\<rparr>)"
  by (simp add: createChunks_def createTextChunks_slices [OF assms])

lemma slices_partition:
  assumes N: "0 < N"
  shows "concat (slices (nat N) T 0) = T"
    and "int (length (slices (nat N) T 0)) = \<lceil>real (length T) / real_of_int N\<rceil>"
    and "\<forall>k < length (slices (nat N) T 0).
            slices (nat N) T 0 ! k = take (nat N) (drop (k * nat N) T)"
    and "\<forall>c \<in> set (slices (nat N) T 0). 0 < length c \<and> int (length c) \<le> N"
proof -
  have n: "0 < nat N" using N by simp
  show "concat (slices (nat N) T 0) = T"
    using concat_slices [OF n, of T 0] by simp
  show "int (length (slices (nat N) T 0)) = \<lceil>real (length T) / real_of_int N\<rceil>"
    using length_slices [OF n, of T 0] ceiling_nat_div [OF N, of "length T"] by simp
  show "\<forall>k < length (slices (nat N) T 0).
            slices (nat N) T 0 ! k = take (nat N) (drop (k * nat N) T)"
    using nth_slices [OF n, of _ T 0] by simp
  show "\<forall>c \<in> set (slices (nat N) T 0). 0 < length c \<and> int (length c) \<le> N"
    using slices_bounds [OF n, of _ T 0] N by fastforce
qed

text \<open>
  Claim C1. For every text \<open>T\<close> of a stream and every chunk size \<open>N > 0\<close>, \<open>createChunks\<close>
  returns, and in the state it returns the chunks of each stream are the contiguous pieces
  \<open>T[k N .. (k + 1) N)\<close> of the stream's response: their concatenation in index order is
  \<open>T\<close>, there are \<open>ceil (len T / N)\<close> of them (none when \<open>T\<close> is empty), each has between
  \<open>1\<close> and \<open>N\<close> code units, and the feedback array of the stream is a fresh array of empty
  entries, as long as the chunk array.
\<close>

theorem createChunks_partitions_text:
  assumes N: "0 < N"
  shows "\<exists>s'. createChunks (Some N) s = Some s' \<and>
           (\<forall>sid. concat (get_stream sid (chunks s')) = get_stream sid (responses s) \<and>
                  int (length (get_stream sid (chunks s')))
                    = \<lceil>real (length (get_stream sid (responses s))) / real_of_int N\<rceil> \<and>
                  (get_stream sid (responses s) = [] \<longrightarrow> get_stream sid (chunks s') = []) \<and>
                  (\<forall>k < length (get_stream sid (chunks s')).
                      get_stream sid (chunks s') ! k
                        = take (nat N) (drop (k * nat N) (get_stream sid (responses s)))) \<and>
                  (\<forall>c \<in> set (get_stream sid (chunks s')). 0 < length c \<and> int (length c) \<le> N) \<and>
                  get_stream sid (feedback s')
                    = \<lparr>elems = replicate (length (get_stream sid (chunks s'))) (Some empty_feedback),
                       props = []\<rparr>)"
proof -
  let ?s' = "s\<lparr>chunks := \<lparr>stream1 = slices (nat N) (stream1 (responses s)) 0,
                          stream2 = slices (nat N) (stream2 (responses s)) 0\<rparr>,
             feedback :=
               \<lparr>stream1 = createEmptyFeedback (length (slices (nat N) (stream1 (responses s)) 0)),
                stream2 = createEmptyFeedback (length (slices (nat N) (stream2 (responses s)) 0))\<rparr>\<rparr>"
  have c: "createChunks (Some N) s = Some ?s'"
    by (rule createChunks_Some [OF N])
  have e: "slices (nat N) [] 0 = ([] :: code_unit list list)"
    by (simp add: slices.simps [of _ "[]"])
  have "concat (get_stream sid (chunks ?s')) = get_stream sid (responses s) \<and>
        int (length (get_stream sid (chunks ?s')))
          = \<lceil>real (length (get_stream sid (responses s))) / real_of_int N\<rceil> \<and>
        (get_stream sid (responses s) = [] \<longrightarrow> get_stream sid (chunks ?s') = []) \<and>
        (\<forall>k < length (get_stream sid (chunks ?s')).
            get_stream sid (chunks ?s') ! k
              = take (nat N) (drop (k * nat N) (get_stream sid (responses s)))) \<and>
        (\<forall>c \<in> set (get_stream sid (chunks ?s')). 0 < length c \<and> int (length c) \<le> N) \<and>
        get_stream sid (feedback ?s')
          = \<lparr>elems = replicate (length (get_stream sid (chunks ?s'))) (Some empty_feedback),
             props = []\<rparr>" for sid
    using slices_partition [OF N, of "stream1 (responses s)"]
          slices_partition [OF N, of "stream2 (responses s)"] e
    by (cases sid) (simp_all add: createEmptyFeedback_def)
  with c show ?thesis by blast
qed

theorem createChunks_partitions_text_witness:
  "(0::int) < 2 \<and>
   (\<exists>s'. createChunks (Some 2) (updateStreamContent Stream1 [0x61, 0x62, 0x63] INITIAL_STATE) = Some s' \<and>
         concat (stream1 (chunks s')) = [0x61, 0x62, 0x63] \<and>
         length (stream1 (chunks s')) = 2 \<and>
         stream1 (chunks s') ! 1 = [0x63] \<and>
         stream2 (chunks s') = [] \<and>
         elems (stream1 (feedback s')) = [Some empty_feedback, Some empty_feedback])"
proof -
  have h: "(0::int) < 2" by simp
  obtain s' where s':
    "createChunks (Some 2) (updateStreamContent Stream1 [0x61, 0x62, 0x63] INITIAL_STATE) = Some s'"
    and p: "\<And>sid. concat (get_stream sid (chunks s'))
                = get_stream sid (responses (updateStreamContent Stream1 [0x61, 0x62, 0x63] INITIAL_STATE))"
           "\<And>sid. int (length (get_stream sid (chunks s')))
                = \<lceil>real (length (get_stream sid (responses (updateStreamContent Stream1 [0x61, 0x62, 0x63] INITIAL_STATE)))) / real_of_int 2\<rceil>"
           "\<And>sid. get_stream sid (responses (updateStreamContent Stream1 [0x61, 0x62, 0x63] INITIAL_STATE)) = []
                \<longrightarrow> get_stream sid (chunks s') = []"
           "\<And>sid. \<forall>k < length (get_stream sid (chunks s')).
                      get_stream sid (chunks s') ! k
                        = take (nat 2) (drop (k * nat 2) (get_stream sid (responses (updateStreamContent Stream1 [0x61, 0x62, 0x63] INITIAL_STATE))))"
           "\<And>sid. get_stream sid (feedback s')
                    = \<lparr>elems = replicate (length (get_stream sid (chunks s'))) (Some empty_feedback),
                       props = []\<rparr>"
    using createChunks_partitions_text [OF h, of "updateStreamContent Stream1 [0x61, 0x62, 0x63] INITIAL_STATE"]
    by blast
  have r: "responses (updateStreamContent Stream1 [0x61, 0x62, 0x63] INITIAL_STATE)
             = \<lparr>stream1 = [0x61, 0x62, 0x63], stream2 = []\<rparr>"
    by (simp add: updateStreamContent_def INITIAL_STATE_def)
  have l: "length (stream1 (chunks s')) = 2"
    using p(2) [of Stream1] by (simp add: r)
  have "stream1 (chunks s') ! 1 = [0x63]"
    using p(4) [of Stream1] l by (simp add: r)
  moreover have "concat (stream1 (chunks s')) = [0x61, 0x62, 0x63]"
    using p(1) [of Stream1] by (simp add: r)
  moreover have "stream2 (chunks s') = []"
    using p(3) [of Stream2] by (simp add: r)
  moreover have "elems (stream1 (feedback s')) = [Some empty_feedback, Some empty_feedback]"
    using p(5) [of Stream1] l by (simp add: numeral_2_eq_2)
  ultimately show ?thesis using s' l by simp
qed

section \<open>The worked example is a state of the store\<close>

lemma slices_Cons: "0 < n \<Longrightarrow> slices n (x # xs) 0 = take n (x # xs) # slices n (x # xs) n"
  by (subst slices.simps) simp

lemma slices_end: "length t \<le> i \<Longrightarrow> slices n t i = []"
  by (subst slices.simps) simp

lemma slices_more: "0 < n \<Longrightarrow> i < length t \<Longrightarrow> slices n t i = take n (drop i t) # slices n t (i + n)"
  by (subst slices.simps) simp

lemma run_example_state: "run example_actions INITIAL_STATE = Some example_state"
proof -
  have a: "createTextChunks 800 [0x61, 0x62, 0x63 :: code_unit] = Some [[0x61, 0x62, 0x63]]"
    by (simp add: createTextChunks_slices slices_Cons slices_end)
  have b: "createTextChunks 800 [0x64 :: code_unit] = Some [[0x64]]"
    by (simp add: createTextChunks_slices slices_Cons slices_end)
  have c: "createTextChunks 2 [0x61, 0x62, 0x63 :: code_unit] = Some [[0x61, 0x62], [0x63]]"
    by (simp add: createTextChunks_slices slices_Cons slices_more slices_end)
  have d: "createTextChunks 2 [0x64 :: code_unit] = Some [[0x64]]"
    by (simp add: createTextChunks_slices slices_Cons slices_more slices_end)
  show ?thesis
    by (simp add: example_actions_def updateStreamContent_def completeStreams_def
          createChunks_def INITIAL_STATE_def a b c d createEmptyFeedback_def example_state_def
          numeral_2_eq_2)
qed

lemma run_append:
  "run (as @ bs) s = (case run as s of None \<Rightarrow> None | Some s' \<Rightarrow> run bs s')"
  by (induction as arbitrary: s) (simp_all split: option.splits)

lemma feedback_len_inv_iff:
  "feedback_len_inv s =
     (\<forall>sid. js_length (get_stream sid (feedback s)) = length (get_stream sid (chunks s)))"
proof
  assume a: "feedback_len_inv s"
  show "\<forall>sid. js_length (get_stream sid (feedback s)) = length (get_stream sid (chunks s))"
  proof
    fix sid
    show "js_length (get_stream sid (feedback s)) = length (get_stream sid (chunks s))"
      using a by (cases sid) (simp_all add: feedback_len_inv_def feedback_len_ok_def)
  qed
next
  assume a: "\<forall>sid. js_length (get_stream sid (feedback s)) = length (get_stream sid (chunks s))"
  show "feedback_len_inv s"
    using a [rule_format, of Stream1] a [rule_format, of Stream2]
    by (simp add: feedback_len_inv_def feedback_len_ok_def)
qed

lemma feedback_len_inv_example_state: "feedback_len_inv example_state"
  unfolding feedback_len_inv_iff
proof
  fix sid
  show "js_length (get_stream sid (feedback example_state))
          = length (get_stream sid (chunks example_state))"
    by (cases sid) (simp_all add: example_state_def js_length_def)
qed

lemma createTextChunks_single:
  assumes "0 < N" "t \<noteq> []" "int (length t) \<le> N"
  shows "createTextChunks N t = Some [t]"
proof -
  have "slices (nat N) t 0 = take (nat N) (drop 0 t) # slices (nat N) t (0 + nat N)"
    using assms by (intro slices_more) simp_all
  moreover have "slices (nat N) t (0 + nat N) = []"
    using assms by (intro slices_end) simp
  ultimately have "slices (nat N) t 0 = [t]"
    using assms by simp
  then show ?thesis using createTextChunks_slices [OF assms(1), of t] by simp
qed

lemma cursor_inv_example_state: "cursor_inv example_state"
  by (simp add: cursor_inv_def cursor_ok_def example_state_def)

section \<open>Recording feedback\<close>

lemma feedback_recordFeedback:
  "feedback (recordFeedback sid idx fb now s) =
     set_stream sid
       (js_array_set (spread (get_stream sid (feedback s))) idx (fb\<lparr>timestamp := Some now\<rparr>))
       (feedback s)"
  by (simp add: recordFeedback_def Let_def)

lemma get_set_stream: "get_stream sid (set_stream sid' v p) = (if sid = sid' then v else get_stream sid p)"
  by (cases sid; cases sid') simp_all

lemma set_set_stream: "set_stream sid v (set_stream sid w p) = set_stream sid v p"
  by (cases sid) simp_all

lemma recordFeedback_frame:
  "chunks (recordFeedback sid idx fb now s) = chunks s"
  "responses (recordFeedback sid idx fb now s) = responses s"
  "currentChunkIndices (recordFeedback sid idx fb now s) = currentChunkIndices s"
  "selectedText (recordFeedback sid idx fb now s) = Some []"
  "activeFeedback (recordFeedback sid idx fb now s) = Some \<lparr>streamId = None, chunkIndex = None\<rparr>"
  by (simp_all add: recordFeedback_def Let_def)

lemma recordFeedback_stream:
  "get_stream sid (feedback (recordFeedback sid idx fb now s))
     = js_array_set (spread (get_stream sid (feedback s))) idx (fb\<lparr>timestamp := Some now\<rparr>)"
  "sid' \<noteq> sid \<Longrightarrow>
     get_stream sid' (feedback (recordFeedback sid idx fb now s)) = get_stream sid' (feedback s)"
  by (simp_all add: feedback_recordFeedback get_set_stream)

text \<open>What an indexed write does to a fresh copy of an array.\<close>

lemma set_spread_index:
  assumes "is_array_index k"
  shows "js_array_set (spread a) k v =
           \<lparr>elems = (if nat k < length (elems a) then (elems a)[nat k := Some v]
                      else elems a @ replicate (nat k - length (elems a)) None @ [Some v]),
            props = []\<rparr>"
  using assms by (simp add: js_array_set_def spread_def)

lemma set_spread_property:
  assumes "\<not> is_array_index k"
  shows "js_array_set (spread a) k v = \<lparr>elems = elems a, props = [(k, v)]\<rparr>"
  using assms by (simp add: js_array_set_def spread_def)

lemma length_set_spread:
  assumes "is_array_index k"
  shows "length (elems (js_array_set (spread a) k v)) = max (length (elems a)) (nat k + 1)"
  using assms by (auto simp: set_spread_index)

lemma nth_set_spread_same:
  assumes "is_array_index k"
  shows "elems (js_array_set (spread a) k v) ! nat k = Some v"
  using assms by (auto simp: set_spread_index nth_append)

lemma nth_set_spread_other:
  assumes "j < length (elems a)" "j \<noteq> nat k"
  shows "elems (js_array_set (spread a) k v) ! j = elems a ! j"
proof (cases "is_array_index k")
  case True
  then show ?thesis using assms by (auto simp: set_spread_index nth_append)
next
  case False
  then show ?thesis by (simp add: set_spread_property)
qed

lemma set_spread_twice:
  "js_array_set (spread (js_array_set (spread a) k v)) k w = js_array_set (spread a) k w"
proof (cases "is_array_index k")
  case True
  show ?thesis
  proof (cases "nat k < length (elems a)")
    case True
    then show ?thesis using \<open>is_array_index k\<close> by (simp add: set_spread_index)
  next
    case False
    let ?pre = "elems a @ replicate (nat k - length (elems a)) None"
    have l: "length ?pre = nat k" using False by simp
    have "(?pre @ [Some v])[nat k := Some w] = ?pre @ [Some w]"
      using l by (metis list_update_length)
    then show ?thesis using \<open>is_array_index k\<close> False
      by (simp add: set_spread_index)
  qed
next
  case False
  then show ?thesis by (simp add: js_array_set_def spread_def)
qed

lemma recordFeedback_twice:
  "recordFeedback sid idx fb later (recordFeedback sid idx fb now s)
     = recordFeedback sid idx fb later s"
proof -
  have "feedback (recordFeedback sid idx fb later (recordFeedback sid idx fb now s))
          = feedback (recordFeedback sid idx fb later s)"
    by (simp add: feedback_recordFeedback get_set_stream set_set_stream set_spread_twice)
  then show ?thesis
    by (simp add: recordFeedback_def Let_def)
qed

lemma feedback_len_ok_recordFeedback_other:
  "sid' \<noteq> sid \<Longrightarrow>
   feedback_len_ok sid' (recordFeedback sid idx fb now s) = feedback_len_ok sid' s"
  by (simp add: feedback_len_ok_def recordFeedback_stream recordFeedback_frame)

text \<open>
  Claim C4. In every state and for every chunk index inside the chunk list of the stream,
  \<open>recordFeedback\<close> stores at that index of the stream's feedback array the fields of the
  given entry with the current time as \<open>timestamp\<close>, whatever was there before; no other
  position and no other stream changes. The same call made again gives what one call with the
  later time gives: one entry at the index, in an array of the same length. The active
  selection is cleared. Where the feedback array is as long as the chunk list, it keeps that
  length.
\<close>

theorem recordFeedback_in_range:
  assumes idx: "is_array_index idx" "idx < int (length (get_stream sid (chunks s)))"
  shows "getFeedbackForChunk sid idx (recordFeedback sid idx fb now s)
           = Some \<lparr>rating = rating fb, comment = comment fb,
                   fbSelectedText = fbSelectedText fb, timestamp = Some now\<rparr> \<and>
         (\<forall>j < js_length (get_stream sid (feedback s)).
            j \<noteq> nat idx \<longrightarrow>
              elems (get_stream sid (feedback (recordFeedback sid idx fb now s))) ! j
                = elems (get_stream sid (feedback s)) ! j) \<and>
         js_length (get_stream sid (feedback (recordFeedback sid idx fb now s)))
           = max (js_length (get_stream sid (feedback s))) (nat idx + 1) \<and>
         (nat idx < js_length (get_stream sid (feedback s)) \<longrightarrow>
            get_stream sid (feedback (recordFeedback sid idx fb now s))
              = \<lparr>elems = (elems (get_stream sid (feedback s)))
                            [nat idx := Some (fb\<lparr>timestamp := Some now\<rparr>)],
                 props = []\<rparr> \<and>
            js_length (get_stream sid (feedback (recordFeedback sid idx fb now s)))
              = js_length (get_stream sid (feedback s))) \<and>
         (\<forall>sid'. sid' \<noteq> sid \<longrightarrow>
            get_stream sid' (feedback (recordFeedback sid idx fb now s))
              = get_stream sid' (feedback s)) \<and>
         recordFeedback sid idx fb later (recordFeedback sid idx fb now s)
           = recordFeedback sid idx fb later s \<and>
         js_length (get_stream sid
             (feedback (recordFeedback sid idx fb later (recordFeedback sid idx fb now s))))
           = js_length (get_stream sid (feedback (recordFeedback sid idx fb now s))) \<and>
         (\<forall>sid'. feedback_len_ok sid' s \<longrightarrow>
            feedback_len_ok sid' (recordFeedback sid idx fb now s)) \<and>
         (feedback_len_inv s \<longrightarrow> feedback_len_inv (recordFeedback sid idx fb now s)) \<and>
         chunks (recordFeedback sid idx fb now s) = chunks s \<and>
         selectedText (recordFeedback sid idx fb now s) = Some [] \<and>
         activeFeedback (recordFeedback sid idx fb now s)
           = Some \<lparr>streamId = None, chunkIndex = None\<rparr>"
proof -
  let ?s' = "recordFeedback sid idx fb now s"
  let ?a = "get_stream sid (feedback s)"
  let ?e = "fb\<lparr>timestamp := Some now\<rparr>"
  have g: "get_stream sid (feedback ?s') = js_array_set (spread ?a) idx ?e"
    by (rule recordFeedback_stream(1))
  have 1: "getFeedbackForChunk sid idx ?s'
           = Some \<lparr>rating = rating fb, comment = comment fb,
                   fbSelectedText = fbSelectedText fb, timestamp = Some now\<rparr>"
    using idx(1) nth_set_spread_same [OF idx(1), of ?a ?e] length_set_spread [OF idx(1), of ?a ?e]
    by (simp add: getFeedbackForChunk_def g js_array_get_def)
  have 2: "\<forall>j < js_length ?a. j \<noteq> nat idx \<longrightarrow>
             elems (get_stream sid (feedback ?s')) ! j = elems ?a ! j"
    by (simp add: g js_length_def nth_set_spread_other)
  have 3: "js_length (get_stream sid (feedback ?s')) = max (js_length ?a) (nat idx + 1)"
    by (simp add: g js_length_def length_set_spread [OF idx(1)])
  have 4: "get_stream sid (feedback ?s')
             = \<lparr>elems = (elems ?a)[nat idx := Some ?e], props = []\<rparr> \<and>
           js_length (get_stream sid (feedback ?s')) = js_length ?a"
    if "nat idx < js_length ?a"
    using that by (simp add: g js_length_def set_spread_index [OF idx(1)])
  have 5: "\<forall>sid'. sid' \<noteq> sid \<longrightarrow> get_stream sid' (feedback ?s') = get_stream sid' (feedback s)"
    by (simp add: recordFeedback_stream(2))
  have 6: "recordFeedback sid idx fb later ?s' = recordFeedback sid idx fb later s"
    by (rule recordFeedback_twice)
  have 7: "js_length (get_stream sid (feedback (recordFeedback sid idx fb later ?s')))
             = js_length (get_stream sid (feedback ?s'))"
    unfolding 6
    by (simp add: recordFeedback_stream(1) js_length_def length_set_spread [OF idx(1)])
  have 8: "feedback_len_ok sid' ?s'" if ok: "feedback_len_ok sid' s" for sid'
  proof (cases "sid' = sid")
    case True
    then have l: "js_length ?a = length (get_stream sid (chunks s))"
      using ok by (simp add: feedback_len_ok_def)
    then have "nat idx < js_length ?a"
      using idx unfolding is_array_index_def by linarith
    then have "js_length (get_stream sid (feedback ?s')) = js_length ?a"
      using 4 by blast
    then show ?thesis using True l
      by (simp add: feedback_len_ok_def recordFeedback_frame)
  next
    case False
    then show ?thesis using ok by (simp add: feedback_len_ok_recordFeedback_other)
  qed
  have 9: "feedback_len_inv ?s'" if "feedback_len_inv s"
    using that 8 by (simp add: feedback_len_inv_def)
  note fr = recordFeedback_frame(1,4,5) [of sid idx fb now s]
  show ?thesis
    using 1 2 3 4 5 6 7 8 9 fr by blast
qed

theorem recordFeedback_in_range_witness:
  "is_array_index 1 \<and> 1 < int (length (get_stream Stream1 (chunks example_state))) \<and>
   feedback_len_inv example_state \<and>
   stream1 (feedback (recordFeedback Stream1 1 example_feedback 1000 example_state))
     = \<lparr>elems = [Some empty_feedback,
                  Some \<lparr>rating = Some Positive, comment = Some [0x6F, 0x6B],
                        fbSelectedText = None, timestamp = Some 1000\<rparr>],
        props = []\<rparr> \<and>
   feedback_len_inv (recordFeedback Stream1 1 example_feedback 1000 example_state) \<and>
   recordFeedback Stream1 1 example_feedback 2000
       (recordFeedback Stream1 1 example_feedback 1000 example_state)
     = recordFeedback Stream1 1 example_feedback 2000 example_state \<and>
   selectedText (recordFeedback Stream1 1 example_feedback 1000 example_state) = Some [] \<and>
   \<not> feedback_len_inv (recordFeedback Stream2 5 example_feedback 500 example_state) \<and>
   1 < int (length (get_stream Stream1
         (chunks (recordFeedback Stream2 5 example_feedback 500 example_state)))) \<and>
   getFeedbackForChunk Stream1 1
       (recordFeedback Stream1 1 example_feedback 1000
          (recordFeedback Stream2 5 example_feedback 500 example_state))
     = Some \<lparr>rating = Some Positive, comment = Some [0x6F, 0x6B],
             fbSelectedText = None, timestamp = Some 1000\<rparr>"
proof -
  let ?b = "recordFeedback Stream2 5 example_feedback 500 example_state"
  have h1: "is_array_index 1" by (simp add: is_array_index_def)
  have h2: "1 < int (length (get_stream Stream1 (chunks example_state)))"
    by (simp add: example_state_def)
  have h3: "1 < int (length (get_stream Stream1 (chunks ?b)))"
    by (simp add: recordFeedback_frame example_state_def)
  note t = recordFeedback_in_range [OF h1 h2, of example_feedback 1000 2000]
  note u = recordFeedback_in_range [OF h1 h3, of example_feedback 1000 2000]
  have a: "stream1 (feedback example_state)
          = \<lparr>elems = [Some empty_feedback, Some empty_feedback], props = []\<rparr>"
    by (simp add: example_state_def)
  have n: "\<not> feedback_len_inv ?b"
    by (simp add: feedback_len_inv_def feedback_len_ok_def js_length_def recordFeedback_frame
          recordFeedback_stream set_spread_index is_array_index_def example_state_def)
  have 1: "stream1 (feedback (recordFeedback Stream1 1 example_feedback 1000 example_state))
     = \<lparr>elems = [Some empty_feedback,
                  Some \<lparr>rating = Some Positive, comment = Some [0x6F, 0x6B],
                        fbSelectedText = None, timestamp = Some 1000\<rparr>],
        props = []\<rparr>"
    using t by (simp add: a js_length_def example_feedback_def)
  have 2: "feedback_len_inv (recordFeedback Stream1 1 example_feedback 1000 example_state)"
    using t feedback_len_inv_example_state by blast
  have 3: "recordFeedback Stream1 1 example_feedback 2000
       (recordFeedback Stream1 1 example_feedback 1000 example_state)
     = recordFeedback Stream1 1 example_feedback 2000 example_state"
    using t by blast
  have 4: "selectedText (recordFeedback Stream1 1 example_feedback 1000 example_state) = Some []"
    using t by blast
  have 5: "getFeedbackForChunk Stream1 1 (recordFeedback Stream1 1 example_feedback 1000 ?b)
     = Some \<lparr>rating = Some Positive, comment = Some [0x6F, 0x6B],
             fbSelectedText = None, timestamp = Some 1000\<rparr>"
    using u by (simp add: example_feedback_def)
  show ?thesis
    using h1 h2 h3 feedback_len_inv_example_state n 1 2 3 4 5 by blast
qed

text \<open>
  Claim C3, as amended. \<open>recordFeedback\<close> has no test of the index and cannot throw. For an
  index outside the chunk list of the stream it is a no-op on the elements only when the
  index is not an array index (a negative number, or one from \<open>2^32 - 1\<close> on): the entry
  is then kept under a property key, the elements of the array stay, and the length invariant
  holds afterwards exactly if it held before. When the index is an array index, so at or past
  the end of the chunk list and below \<open>2^32 - 1\<close>, the entry is stored at that position and
  the array has \<open>max len (chunkIndex + 1)\<close> positions afterwards, more than the stream has
  chunks: where it was as long as the chunk list it grows to \<open>chunkIndex + 1\<close> positions, the
  entry last and holes before it. The chunk lists and the other stream's feedback array never
  change.
\<close>

theorem recordFeedback_out_of_range:
  assumes out: "\<not> (0 \<le> idx \<and> idx < int (length (get_stream sid (chunks s))))"
  shows "chunks (recordFeedback sid idx fb now s) = chunks s \<and>
         (\<forall>sid'. sid' \<noteq> sid \<longrightarrow>
            get_stream sid' (feedback (recordFeedback sid idx fb now s))
              = get_stream sid' (feedback s)) \<and>
         (if is_array_index idx
          then getFeedbackForChunk sid idx (recordFeedback sid idx fb now s)
                 = Some (fb\<lparr>timestamp := Some now\<rparr>) \<and>
               (\<forall>j < js_length (get_stream sid (feedback s)).
                  j \<noteq> nat idx \<longrightarrow>
                    elems (get_stream sid (feedback (recordFeedback sid idx fb now s))) ! j
                      = elems (get_stream sid (feedback s)) ! j) \<and>
               js_length (get_stream sid (feedback (recordFeedback sid idx fb now s)))
                 = max (js_length (get_stream sid (feedback s))) (nat idx + 1) \<and>
               length (get_stream sid (chunks s))
                 < js_length (get_stream sid (feedback (recordFeedback sid idx fb now s))) \<and>
               \<not> feedback_len_inv (recordFeedback sid idx fb now s) \<and>
               (feedback_len_ok sid s \<longrightarrow>
                  elems (get_stream sid (feedback (recordFeedback sid idx fb now s)))
                    = elems (get_stream sid (feedback s))
                      @ replicate (nat idx - length (get_stream sid (chunks s))) None
                      @ [Some (fb\<lparr>timestamp := Some now\<rparr>)] \<and>
                  js_length (get_stream sid (feedback (recordFeedback sid idx fb now s)))
                    = nat idx + 1)
          else elems (get_stream sid (feedback (recordFeedback sid idx fb now s)))
                 = elems (get_stream sid (feedback s)) \<and>
               props (get_stream sid (feedback (recordFeedback sid idx fb now s)))
                 = [(idx, fb\<lparr>timestamp := Some now\<rparr>)] \<and>
               feedback_len_inv (recordFeedback sid idx fb now s) = feedback_len_inv s)"
proof -
  let ?s' = "recordFeedback sid idx fb now s"
  let ?a = "get_stream sid (feedback s)"
  let ?e = "fb\<lparr>timestamp := Some now\<rparr>"
  have d: "\<forall>sid'. sid' \<noteq> sid \<longrightarrow> get_stream sid' (feedback ?s') = get_stream sid' (feedback s)"
    by (simp add: recordFeedback_stream(2))
  have g: "get_stream sid (feedback ?s') = js_array_set (spread ?a) idx ?e"
    by (rule recordFeedback_stream(1))
  show ?thesis
  proof (cases "is_array_index idx")
    case True
    then have k: "length (get_stream sid (chunks s)) \<le> nat idx"
      using out unfolding is_array_index_def by linarith
    have 1: "getFeedbackForChunk sid idx ?s' = Some ?e"
      using True nth_set_spread_same [OF True, of ?a ?e] length_set_spread [OF True, of ?a ?e]
      by (simp add: getFeedbackForChunk_def g js_array_get_def)
    have 2: "\<forall>j < js_length ?a. j \<noteq> nat idx \<longrightarrow>
               elems (get_stream sid (feedback ?s')) ! j = elems ?a ! j"
      by (simp add: g js_length_def nth_set_spread_other)
    have 3: "js_length (get_stream sid (feedback ?s')) = max (js_length ?a) (nat idx + 1)"
      by (simp add: g js_length_def length_set_spread [OF True])
    have 4: "length (get_stream sid (chunks s)) < js_length (get_stream sid (feedback ?s'))"
      using 3 k by linarith
    have 5: "\<not> feedback_len_inv ?s'"
    proof
      assume "feedback_len_inv ?s'"
      then have "js_length (get_stream sid (feedback ?s')) = length (get_stream sid (chunks ?s'))"
        unfolding feedback_len_inv_iff by blast
      then show False using 4 by (simp add: recordFeedback_frame)
    qed
    have 6: "elems (get_stream sid (feedback ?s'))
               = elems ?a @ replicate (nat idx - length (get_stream sid (chunks s))) None @ [Some ?e] \<and>
             js_length (get_stream sid (feedback ?s')) = nat idx + 1"
      if inv: "feedback_len_ok sid s"
    proof -
      have l: "length (elems ?a) = length (get_stream sid (chunks s))"
        using inv by (simp add: feedback_len_ok_def js_length_def)
      then have "\<not> nat idx < length (elems ?a)" using k by simp
      then show ?thesis using l k
        by (simp add: g set_spread_index [OF True] js_length_def)
    qed
    show ?thesis using True 1 2 3 4 5 6 d by (simp add: recordFeedback_frame)
  next
    case False
    have e: "elems (get_stream sid (feedback ?s')) = elems ?a"
      and p: "props (get_stream sid (feedback ?s')) = [(idx, ?e)]"
      by (simp_all add: g set_spread_property [OF False])
    have "feedback_len_ok sid' ?s' = feedback_len_ok sid' s" for sid'
    proof (cases "sid' = sid")
      case True
      then show ?thesis using e
        by (simp add: feedback_len_ok_def js_length_def recordFeedback_frame)
    next
      case False
      then show ?thesis by (rule feedback_len_ok_recordFeedback_other)
    qed
    then have f: "feedback_len_inv ?s' = feedback_len_inv s"
      by (simp add: feedback_len_inv_def)
    show ?thesis using False e p f d by (simp add: recordFeedback_frame)
  qed
qed

theorem recordFeedback_out_of_range_witness:
  "feedback_len_inv example_state \<and>
   \<not> (0 \<le> (5::int) \<and> 5 < int (length (get_stream Stream2 (chunks example_state)))) \<and>
   \<not> (0 \<le> (-1::int) \<and> -1 < int (length (get_stream Stream2 (chunks example_state)))) \<and>
   \<not> (0 \<le> (4294967295::int) \<and>
        4294967295 < int (length (get_stream Stream2 (chunks example_state)))) \<and>
   elems (stream2 (feedback (recordFeedback Stream2 5 example_feedback 1000 example_state)))
     = [Some empty_feedback, None, None, None, None,
        Some (example_feedback\<lparr>timestamp := Some 1000\<rparr>)] \<and>
   \<not> feedback_len_inv (recordFeedback Stream2 5 example_feedback 1000 example_state) \<and>
   stream2 (feedback (recordFeedback Stream2 (-1) example_feedback 1000 example_state))
     = \<lparr>elems = [Some empty_feedback],
        props = [(-1, example_feedback\<lparr>timestamp := Some 1000\<rparr>)]\<rparr> \<and>
   feedback_len_inv (recordFeedback Stream2 (-1) example_feedback 1000 example_state) \<and>
   stream2 (feedback (recordFeedback Stream2 4294967295 example_feedback 1000 example_state))
     = \<lparr>elems = [Some empty_feedback],
        props = [(4294967295, example_feedback\<lparr>timestamp := Some 1000\<rparr>)]\<rparr> \<and>
   feedback_len_inv (recordFeedback Stream2 4294967295 example_feedback 1000 example_state)"
proof -
  have h1: "\<not> (0 \<le> (5::int) \<and> 5 < int (length (get_stream Stream2 (chunks example_state))))"
    by (simp add: example_state_def)
  have h2: "\<not> (0 \<le> (-1::int) \<and> -1 < int (length (get_stream Stream2 (chunks example_state))))"
    by simp
  have h3: "\<not> (0 \<le> (4294967295::int) \<and>
        4294967295 < int (length (get_stream Stream2 (chunks example_state))))"
    by (simp add: example_state_def)
  have i1: "is_array_index 5" and i2: "\<not> is_array_index (-1)"
    and i3: "\<not> is_array_index 4294967295"
    by (simp_all add: is_array_index_def)
  have c: "stream2 (feedback example_state) = \<lparr>elems = [Some empty_feedback], props = []\<rparr>"
          "length (stream2 (chunks example_state)) = 1"
    by (simp_all add: example_state_def)
  have r: "replicate 4 (None :: ChunkFeedback option) = [None, None, None, None]"
    by (simp add: numeral_eq_Suc)
  note a = recordFeedback_out_of_range [OF h1, of example_feedback 1000]
  note b = recordFeedback_out_of_range [OF h2, of example_feedback 1000]
  note d = recordFeedback_out_of_range [OF h3, of example_feedback 1000]
  have "elems (stream2 (feedback (recordFeedback Stream2 5 example_feedback 1000 example_state)))
     = [Some empty_feedback, None, None, None, None,
        Some (example_feedback\<lparr>timestamp := Some 1000\<rparr>)]"
    using a i1 feedback_len_inv_example_state by (simp add: c r feedback_len_inv_def)
  moreover have "\<not> feedback_len_inv (recordFeedback Stream2 5 example_feedback 1000 example_state)"
    using a i1 by simp
  moreover have "stream2 (feedback (recordFeedback Stream2 (-1) example_feedback 1000 example_state))
     = \<lparr>elems = [Some empty_feedback],
        props = [(-1, example_feedback\<lparr>timestamp := Some 1000\<rparr>)]\<rparr>"
    using b i2 by (simp add: c)
  moreover have "feedback_len_inv (recordFeedback Stream2 (-1) example_feedback 1000 example_state)"
    using b i2 feedback_len_inv_example_state by simp
  moreover have "stream2 (feedback (recordFeedback Stream2 4294967295 example_feedback 1000 example_state))
     = \<lparr>elems = [Some empty_feedback],
        props = [(4294967295, example_feedback\<lparr>timestamp := Some 1000\<rparr>)]\<rparr>"
    using d i3 by (simp add: c)
  moreover have "feedback_len_inv (recordFeedback Stream2 4294967295 example_feedback 1000 example_state)"
    using d i3 feedback_len_inv_example_state by simp
  ultimately show ?thesis
    using feedback_len_inv_example_state h1 h2 h3 by blast
qed

text \<open>
  Claim C3 as stated fails: in the initial state, which has no chunks, index 2 is out of range
  and \<open>recordFeedback\<close> leaves a feedback array of length 3.
\<close>

theorem recordFeedback_out_of_range_counterexample:
  "\<not> (0 \<le> (2::int) \<and> 2 < int (length (get_stream Stream1 (chunks INITIAL_STATE)))) \<and>
   feedback_len_inv INITIAL_STATE \<and>
   elems (stream1 (feedback (recordFeedback Stream1 2 empty_feedback 1000 INITIAL_STATE)))
     = [None, None, Some \<lparr>rating = None, comment = None, fbSelectedText = None,
                           timestamp = Some 1000\<rparr>] \<and>
   feedback (recordFeedback Stream1 2 empty_feedback 1000 INITIAL_STATE) \<noteq> feedback INITIAL_STATE \<and>
   \<not> feedback_len_inv (recordFeedback Stream1 2 empty_feedback 1000 INITIAL_STATE)"
proof -
  have i: "feedback_len_inv INITIAL_STATE"
    unfolding feedback_len_inv_iff
  proof
    fix sid
    show "js_length (get_stream sid (feedback INITIAL_STATE))
            = length (get_stream sid (chunks INITIAL_STATE))"
      by (cases sid) (simp_all add: INITIAL_STATE_def js_length_def)
  qed
  have e: "elems (stream1 (feedback (recordFeedback Stream1 2 empty_feedback 1000 INITIAL_STATE)))
     = [None, None, Some \<lparr>rating = None, comment = None, fbSelectedText = None,
                           timestamp = Some 1000\<rparr>]"
    by (simp add: recordFeedback_def Let_def INITIAL_STATE_def spread_def js_array_set_def
          is_array_index_def empty_feedback_def numeral_2_eq_2)
  have n: "\<not> feedback_len_inv (recordFeedback Stream1 2 empty_feedback 1000 INITIAL_STATE)"
  proof
    assume "feedback_len_inv (recordFeedback Stream1 2 empty_feedback 1000 INITIAL_STATE)"
    then have "js_length (get_stream Stream1 (feedback (recordFeedback Stream1 2 empty_feedback 1000 INITIAL_STATE)))
               = length (get_stream Stream1 (chunks (recordFeedback Stream1 2 empty_feedback 1000 INITIAL_STATE)))"
      unfolding feedback_len_inv_iff by blast
    then show False
      using e by (simp add: js_length_def recordFeedback_frame INITIAL_STATE_def)
  qed
  have d: "feedback (recordFeedback Stream1 2 empty_feedback 1000 INITIAL_STATE) \<noteq> feedback INITIAL_STATE"
  proof
    assume "feedback (recordFeedback Stream1 2 empty_feedback 1000 INITIAL_STATE) = feedback INITIAL_STATE"
    then have "elems (stream1 (feedback (recordFeedback Stream1 2 empty_feedback 1000 INITIAL_STATE)))
               = elems (stream1 (feedback INITIAL_STATE))" by simp
    then show False using e by (simp add: INITIAL_STATE_def)
  qed
  show ?thesis using i e n d by (simp add: INITIAL_STATE_def)
qed

section \<open>Starting a session\<close>

text \<open>
  Claim C6, as amended. \<open>startFeedbackSession\<close> does the same whether or not chunks exist:
  it sets both cursors to 0, replaces the feedback arrays by arrays of empty entries as long
  as the current chunk lists (so empty ones when there are no chunks), sets \<open>isChunked\<close>, and
  keeps \<open>responses\<close>, \<open>chunks\<close>, \<open>isComplete\<close> and the selection as they are; nothing is
  cleared to a default.
\<close>

theorem startFeedbackSession_keeps_text:
  "startFeedbackSession s =
     s\<lparr>isChunked := True,
       currentChunkIndices := \<lparr>stream1 = 0, stream2 = 0\<rparr>,
       feedback := \<lparr>stream1 = createEmptyFeedback (length (stream1 (chunks s))),
                    stream2 = createEmptyFeedback (length (stream2 (chunks s)))\<rparr>\<rparr> \<and>
   (\<forall>sid. get_stream sid (currentChunkIndices (startFeedbackSession s)) = 0 \<and>
          get_stream sid (feedback (startFeedbackSession s))
            = \<lparr>elems = replicate (length (get_stream sid (chunks s))) (Some empty_feedback),
               props = []\<rparr> \<and>
          (get_stream sid (chunks s) = [] \<longrightarrow>
             get_stream sid (feedback (startFeedbackSession s)) = \<lparr>elems = [], props = []\<rparr>)) \<and>
   responses (startFeedbackSession s) = responses s \<and>
   chunks (startFeedbackSession s) = chunks s \<and>
   isChunked (startFeedbackSession s) \<and>
   isComplete (startFeedbackSession s) = isComplete s \<and>
   selectedText (startFeedbackSession s) = selectedText s \<and>
   activeFeedback (startFeedbackSession s) = activeFeedback s \<and>
   feedback_len_inv (startFeedbackSession s) \<and>
   cursor_inv (startFeedbackSession s)"
proof -
  have "get_stream sid (currentChunkIndices (startFeedbackSession s)) = 0 \<and>
        get_stream sid (feedback (startFeedbackSession s))
          = \<lparr>elems = replicate (length (get_stream sid (chunks s))) (Some empty_feedback),
             props = []\<rparr> \<and>
        (get_stream sid (chunks s) = [] \<longrightarrow>
           get_stream sid (feedback (startFeedbackSession s)) = \<lparr>elems = [], props = []\<rparr>)" for sid
    by (cases sid) (simp_all add: startFeedbackSession_def createEmptyFeedback_def)
  moreover have "feedback_len_inv (startFeedbackSession s)"
    by (simp add: startFeedbackSession_def createEmptyFeedback_def feedback_len_inv_def
          feedback_len_ok_def js_length_def)
  moreover have "cursor_inv (startFeedbackSession s)"
    by (simp add: startFeedbackSession_def cursor_inv_def cursor_ok_def)
  ultimately show ?thesis
    by (simp add: startFeedbackSession_def)
qed

theorem startFeedbackSession_keeps_text_witness:
  "get_stream Stream1 (chunks (updateStreamContent Stream1 [0x68, 0x69] INITIAL_STATE)) = [] \<and>
   stream1 (feedback (startFeedbackSession (updateStreamContent Stream1 [0x68, 0x69] INITIAL_STATE)))
     = \<lparr>elems = [], props = []\<rparr> \<and>
   stream1 (feedback (startFeedbackSession example_state))
     = \<lparr>elems = [Some empty_feedback, Some empty_feedback], props = []\<rparr>"
proof -
  have h: "get_stream Stream1 (chunks (updateStreamContent Stream1 [0x68, 0x69] INITIAL_STATE)) = []"
    by (simp add: updateStreamContent_def INITIAL_STATE_def)
  note a = startFeedbackSession_keeps_text
    [of "updateStreamContent Stream1 [0x68, 0x69] INITIAL_STATE",
     THEN conjunct2, THEN conjunct1, rule_format, of Stream1,
     THEN conjunct2, THEN conjunct2, rule_format, OF h]
  note b = startFeedbackSession_keeps_text
    [of example_state, THEN conjunct2, THEN conjunct1, rule_format, of Stream1,
     THEN conjunct2, THEN conjunct1]
  have l: "length (get_stream Stream1 (chunks example_state)) = Suc (Suc 0)"
    by (simp add: example_state_def)
  have "stream1 (feedback (startFeedbackSession example_state))
     = \<lparr>elems = [Some empty_feedback, Some empty_feedback], props = []\<rparr>"
    using b unfolding l by simp
  moreover have "stream1 (feedback (startFeedbackSession (updateStreamContent Stream1 [0x68, 0x69] INITIAL_STATE)))
     = \<lparr>elems = [], props = []\<rparr>"
    using a by simp
  ultimately show ?thesis using h by blast
qed

text \<open>
  Claim C6 as stated fails: after \<open>updateStreamContent\<close> has stored a response and before
  any chunk exists, \<open>startFeedbackSession\<close> keeps the response instead of clearing it.
\<close>

theorem startFeedbackSession_no_chunks_counterexample:
  "stream1 (chunks (updateStreamContent Stream1 [0x68, 0x69] INITIAL_STATE)) = [] \<and>
   stream2 (chunks (updateStreamContent Stream1 [0x68, 0x69] INITIAL_STATE)) = [] \<and>
   stream1 (responses (startFeedbackSession (updateStreamContent Stream1 [0x68, 0x69] INITIAL_STATE)))
     = [0x68, 0x69] \<and>
   stream1 (responses INITIAL_STATE) = [] \<and>
   startFeedbackSession (updateStreamContent Stream1 [0x68, 0x69] INITIAL_STATE)
     \<noteq> INITIAL_STATE\<lparr>isChunked := True\<rparr>"
proof -
  have r: "stream1 (responses (startFeedbackSession (updateStreamContent Stream1 [0x68, 0x69] INITIAL_STATE)))
     = [0x68, 0x69]"
    by (simp add: startFeedbackSession_def updateStreamContent_def)
  have "startFeedbackSession (updateStreamContent Stream1 [0x68, 0x69] INITIAL_STATE)
     \<noteq> INITIAL_STATE\<lparr>isChunked := True\<rparr>"
  proof
    assume "startFeedbackSession (updateStreamContent Stream1 [0x68, 0x69] INITIAL_STATE)
       = INITIAL_STATE\<lparr>isChunked := True\<rparr>"
    then have "stream1 (responses (startFeedbackSession (updateStreamContent Stream1 [0x68, 0x69] INITIAL_STATE)))
       = stream1 (responses (INITIAL_STATE\<lparr>isChunked := True\<rparr>))"
      by simp
    then show False using r by (simp add: INITIAL_STATE_def)
  qed
  then show ?thesis using r
    by (simp add: updateStreamContent_def INITIAL_STATE_def)
qed

section \<open>The selection\<close>

lemma selection_frame:
  "selectedText (startFeedbackSession s) = selectedText s"
  "activeFeedback (startFeedbackSession s) = activeFeedback s"
  "selectedText (updateStreamContent sid c s) = selectedText s"
  "activeFeedback (updateStreamContent sid c s) = activeFeedback s"
  "selectedText (showNextChunk s) = selectedText s"
  "activeFeedback (showNextChunk s) = activeFeedback s"
  "selectedText (showNextChunkForStream sid s) = selectedText s"
  "activeFeedback (showNextChunkForStream sid s) = activeFeedback s"
  by (simp_all add: startFeedbackSession_def updateStreamContent_def showNextChunk_def
        showNextChunkForStream_def Let_def)

lemma createChunks_frame:
  assumes "createChunks arg s = Some s'"
  shows "selectedText s' = selectedText s" "activeFeedback s' = activeFeedback s"
        "currentChunkIndices s' = currentChunkIndices s" "responses s' = responses s"
        "isComplete s' = isComplete s" "isChunked s' = isChunked s"
  using assms by (auto simp: createChunks_def Let_def split: option.splits)

lemma selection_inv_cong:
  "selectedText s' = selectedText s \<Longrightarrow> activeFeedback s' = activeFeedback s \<Longrightarrow>
   selection_inv s' = selection_inv s"
  by (simp add: selection_inv_def split: option.splits)

text \<open>
  Claim C7, as amended. \<open>clearSelectedText\<close> resets the text to the empty string and the
  stream and chunk reference to null together, which establishes the invariant.
  \<open>setSelectedText\<close> stores the text and the reference as they are given, whatever the
  text: it never behaves like \<open>clearSelectedText\<close>, and after it the invariant holds exactly
  when the text is non-empty. Every other operation of the store preserves the invariant.
\<close>

theorem setSelectedText_stores_as_given:
  "selectedText (clearSelectedText s) = Some [] \<and>
   activeFeedback (clearSelectedText s) = Some \<lparr>streamId = None, chunkIndex = None\<rparr> \<and>
   selection_inv (clearSelectedText s) \<and>
   selectedText (setSelectedText text sid idx s) = Some text \<and>
   activeFeedback (setSelectedText text sid idx s) = Some \<lparr>streamId = Some sid, chunkIndex = Some idx\<rparr> \<and>
   setSelectedText text sid idx s \<noteq> clearSelectedText s \<and>
   selection_inv (setSelectedText text sid idx s) = (text \<noteq> []) \<and>
   (selection_inv s \<and> step a s = Some s' \<and> (\<forall>sid' idx'. a \<noteq> SetSelectedText [] sid' idx')
      \<longrightarrow> selection_inv s')"
proof -
  have d: "setSelectedText text sid idx s \<noteq> clearSelectedText s"
  proof
    assume "setSelectedText text sid idx s = clearSelectedText s"
    then have "activeFeedback (setSelectedText text sid idx s) = activeFeedback (clearSelectedText s)"
      by simp
    then show False by (simp add: setSelectedText_def clearSelectedText_def)
  qed
  have p: "selection_inv s'"
    if "selection_inv s" "step a s = Some s'" "\<forall>sid' idx'. a \<noteq> SetSelectedText [] sid' idx'"
  proof (cases a)
    case StartFeedbackSession
    then show ?thesis using that by (auto simp: selection_frame selection_inv_def split: option.splits)
  next
    case (UpdateStreamContent x21 x22)
    then show ?thesis using that by (auto simp: selection_frame selection_inv_def split: option.splits)
  next
    case CompleteStreams
    then have "createChunks None (s\<lparr>isComplete := True, currentChunkIndices := \<lparr>stream1 = 0, stream2 = 0\<rparr>\<rparr>) = Some s'"
      using that by (simp add: completeStreams_def)
    from createChunks_frame(1,2) [OF this] have "selection_inv s' = selection_inv s"
      by (intro selection_inv_cong) simp_all
    then show ?thesis using that(1) by simp
  next
    case (CreateChunks x4)
    then have "createChunks x4 s = Some s'" using that by simp
    from createChunks_frame(1,2) [OF this] have "selection_inv s' = selection_inv s"
      by (rule selection_inv_cong)
    then show ?thesis using that(1) by simp
  next
    case (RecordFeedback x51 x52 x53 x54)
    then show ?thesis using that by (auto simp: recordFeedback_def Let_def selection_inv_def)
  next
    case ShowNextChunk
    then show ?thesis using that by (auto simp: selection_frame selection_inv_def split: option.splits)
  next
    case (ShowNextChunkForStream x7)
    then show ?thesis using that by (auto simp: selection_frame selection_inv_def split: option.splits)
  next
    case ResetFeedbackSession
    then show ?thesis using that
      by (auto simp: resetFeedbackSession_def INITIAL_STATE_def selection_inv_def)
  next
    case ResetEverything
    then show ?thesis using that by (auto simp: resetEverything_def selection_inv_def)
  next
    case (SetSelectedText t x y)
    then have "t \<noteq> []" using that(3) by auto
    then show ?thesis using that SetSelectedText
      by (auto simp: setSelectedText_def selection_inv_def)
  next
    case ClearSelectedText
    then show ?thesis using that by (auto simp: clearSelectedText_def selection_inv_def)
  qed
  have c: "selectedText (clearSelectedText s) = Some []"
    "activeFeedback (clearSelectedText s) = Some \<lparr>streamId = None, chunkIndex = None\<rparr>"
    "selection_inv (clearSelectedText s)"
    by (simp_all add: clearSelectedText_def selection_inv_def)
  have e: "selectedText (setSelectedText text sid idx s) = Some text"
    "activeFeedback (setSelectedText text sid idx s) = Some \<lparr>streamId = Some sid, chunkIndex = Some idx\<rparr>"
    "selection_inv (setSelectedText text sid idx s) = (text \<noteq> [])"
    by (simp_all add: setSelectedText_def selection_inv_def)
  show ?thesis using c d e p by blast
qed

theorem setSelectedText_stores_as_given_witness:
  "selection_inv example_state \<and>
   step (ShowNextChunkForStream Stream1) example_state
     = Some (showNextChunkForStream Stream1 example_state) \<and>
   selection_inv (showNextChunkForStream Stream1 example_state) \<and>
   selection_inv (setSelectedText [0x61] Stream1 0 example_state)"
proof -
  have h1: "selection_inv example_state"
    by (simp add: selection_inv_def example_state_def)
  have h2: "step (ShowNextChunkForStream Stream1) example_state
     = Some (showNextChunkForStream Stream1 example_state)" by simp
  have h3: "\<forall>sid' idx'. ShowNextChunkForStream Stream1 \<noteq> SetSelectedText [] sid' idx'" by simp
  have "selection_inv (showNextChunkForStream Stream1 example_state)"
    using setSelectedText_stores_as_given [of example_state _ _ _ "ShowNextChunkForStream Stream1"
        "showNextChunkForStream Stream1 example_state"] h1 h2 h3 by blast
  moreover have "selection_inv (setSelectedText [0x61] Stream1 0 example_state)"
    using setSelectedText_stores_as_given [of example_state "[0x61]" Stream1 0] by simp
  ultimately show ?thesis using h1 h2 by blast
qed

text \<open>
  Claim C7 as stated fails: \<open>setSelectedText\<close> with the empty text leaves a stream reference
  next to an empty selection.
\<close>

theorem setSelectedText_empty_counterexample:
  "setSelectedText [] Stream1 0 INITIAL_STATE \<noteq> clearSelectedText INITIAL_STATE \<and>
   activeFeedback (setSelectedText [] Stream1 0 INITIAL_STATE)
     = Some \<lparr>streamId = Some Stream1, chunkIndex = Some 0\<rparr> \<and>
   selectedText (setSelectedText [] Stream1 0 INITIAL_STATE) = Some [] \<and>
   \<not> selection_inv (setSelectedText [] Stream1 0 INITIAL_STATE)"
proof -
  have "setSelectedText [] Stream1 0 INITIAL_STATE \<noteq> clearSelectedText INITIAL_STATE"
  proof
    assume "setSelectedText [] Stream1 0 INITIAL_STATE = clearSelectedText INITIAL_STATE"
    then have "activeFeedback (setSelectedText [] Stream1 0 INITIAL_STATE)
                 = activeFeedback (clearSelectedText INITIAL_STATE)" by simp
    then show False by (simp add: setSelectedText_def clearSelectedText_def)
  qed
  then show ?thesis by (simp add: setSelectedText_def selection_inv_def)
qed

section \<open>Advancing one cursor\<close>

text \<open>
  Claim C8, as amended. \<open>showNextChunkForStream\<close> sets the cursor of the stream to
  \<open>min (cursor + 1) (max 0 (len - 1))\<close> and changes nothing else: \<open>responses\<close>, \<open>chunks\<close>
  and \<open>feedback\<close> stay, and so do \<open>selectedText\<close> and \<open>activeFeedback\<close>, which are not
  cleared.
\<close>

theorem showNextChunkForStream_moves_cursor_only:
  "showNextChunkForStream sid s =
     s\<lparr>currentChunkIndices :=
         set_stream sid
           (min (get_stream sid (currentChunkIndices s) + 1)
                (max 0 (int (length (get_stream sid (chunks s))) - 1)))
           (currentChunkIndices s)\<rparr> \<and>
   get_stream sid (currentChunkIndices (showNextChunkForStream sid s))
     = min (get_stream sid (currentChunkIndices s) + 1)
           (max 0 (int (length (get_stream sid (chunks s))) - 1)) \<and>
   responses (showNextChunkForStream sid s) = responses s \<and>
   chunks (showNextChunkForStream sid s) = chunks s \<and>
   feedback (showNextChunkForStream sid s) = feedback s \<and>
   selectedText (showNextChunkForStream sid s) = selectedText s \<and>
   activeFeedback (showNextChunkForStream sid s) = activeFeedback s"
  by (cases sid) (simp_all add: showNextChunkForStream_def Let_def)

theorem showNextChunkForStream_moves_cursor_only_witness:
  "stream1 (currentChunkIndices (showNextChunkForStream Stream1 example_state)) = 1 \<and>
   stream1 (currentChunkIndices
      (showNextChunkForStream Stream1 (showNextChunkForStream Stream1 example_state))) = 1 \<and>
   stream2 (currentChunkIndices (showNextChunkForStream Stream2 example_state)) = 0 \<and>
   feedback (showNextChunkForStream Stream1 example_state) = feedback example_state"
proof -
  have c: "chunks example_state = \<lparr>stream1 = [[0x61, 0x62], [0x63]], stream2 = [[0x64]]\<rparr>"
          "currentChunkIndices example_state = \<lparr>stream1 = 0, stream2 = 0\<rparr>"
    by (simp_all add: example_state_def)
  note a = showNextChunkForStream_moves_cursor_only [of Stream1 example_state]
  note b = showNextChunkForStream_moves_cursor_only
             [of Stream1 "showNextChunkForStream Stream1 example_state"]
  note d = showNextChunkForStream_moves_cursor_only [of Stream2 example_state]
  have 1: "stream1 (currentChunkIndices (showNextChunkForStream Stream1 example_state)) = 1"
    using a [THEN conjunct2, THEN conjunct1] by (simp add: c)
  have 2: "stream1 (currentChunkIndices
      (showNextChunkForStream Stream1 (showNextChunkForStream Stream1 example_state))) = 1"
    using b [THEN conjunct2, THEN conjunct1] a [THEN conjunct2, THEN conjunct2] 1
    by (simp add: c)
  have 3: "stream2 (currentChunkIndices (showNextChunkForStream Stream2 example_state)) = 0"
    using d [THEN conjunct2, THEN conjunct1] by (simp add: c)
  show ?thesis using 1 2 3 a by simp
qed

text \<open>
  Claim C8 as stated fails: a selection made on the first chunk is still there after the
  cursor has moved to the second.
\<close>

theorem showNextChunkForStream_selection_counterexample:
  "selectedText (setSelectedText [0x61] Stream1 0 example_state) = Some [0x61] \<and>
   selectedText (showNextChunkForStream Stream1 (setSelectedText [0x61] Stream1 0 example_state))
     = Some [0x61] \<and>
   activeFeedback (showNextChunkForStream Stream1 (setSelectedText [0x61] Stream1 0 example_state))
     = Some \<lparr>streamId = Some Stream1, chunkIndex = Some 0\<rparr> \<and>
   stream1 (currentChunkIndices
      (showNextChunkForStream Stream1 (setSelectedText [0x61] Stream1 0 example_state))) = 1"
  by (simp add: showNextChunkForStream_def setSelectedText_def Let_def example_state_def)

section \<open>The cursors\<close>

lemma cursor_inv_iff: "cursor_inv s = (\<forall>sid. cursor_ok sid s)"
proof
  assume a: "cursor_inv s"
  show "\<forall>sid. cursor_ok sid s"
  proof
    fix sid
    show "cursor_ok sid s" using a by (cases sid) (simp_all add: cursor_inv_def)
  qed
next
  assume "\<forall>sid. cursor_ok sid s"
  then show "cursor_inv s" by (simp add: cursor_inv_def)
qed

lemma cursor_inv_zero:
  "currentChunkIndices s = \<lparr>stream1 = 0, stream2 = 0\<rparr> \<Longrightarrow> cursor_inv s"
  by (simp add: cursor_inv_def cursor_ok_def)

lemma cursor_inv_same:
  "currentChunkIndices s' = currentChunkIndices s \<Longrightarrow> chunks s' = chunks s \<Longrightarrow>
   cursor_inv s \<Longrightarrow> cursor_inv s'"
  by (simp add: cursor_inv_def cursor_ok_def)

lemma showNextChunkForStream_cursor:
  "get_stream sid' (currentChunkIndices (showNextChunkForStream sid s)) =
     (if sid' = sid
      then min (get_stream sid (currentChunkIndices s) + 1)
               (max 0 (int (length (get_stream sid (chunks s))) - 1))
      else get_stream sid' (currentChunkIndices s))"
  "chunks (showNextChunkForStream sid s) = chunks s"
  by (cases sid; cases sid'; simp add: showNextChunkForStream_def Let_def)+

lemma showNextChunk_cursor:
  "get_stream sid (currentChunkIndices (showNextChunk s)) =
     min (get_stream sid (currentChunkIndices s) + 1)
         (int (length (get_stream sid (chunks s))) - 1)"
  "chunks (showNextChunk s) = chunks s"
  by (cases sid; simp add: showNextChunk_def Let_def)+

lemma showNextChunkForStream_cursor_ok:
  "cursor_ok sid' s \<Longrightarrow> cursor_ok sid' (showNextChunkForStream sid s)"
  unfolding cursor_ok_def showNextChunkForStream_cursor by auto

lemma showNextChunk_cursor_ok:
  "get_stream sid (chunks s) \<noteq> [] \<Longrightarrow> cursor_ok sid s \<Longrightarrow> cursor_ok sid (showNextChunk s)"
  unfolding cursor_ok_def showNextChunk_cursor by (cases "get_stream sid (chunks s)") auto

lemma createChunks_cursors:
  "createChunks arg s = Some s' \<Longrightarrow> currentChunkIndices s' = currentChunkIndices s"
  by (auto simp: createChunks_def Let_def split: option.splits)

text \<open>
  Every operation of the store preserves the cursor invariant, a direct \<open>createChunks\<close> and
  a \<open>showNextChunk\<close> on a stream without chunks apart.
\<close>

lemma step_cursor_inv:
  assumes inv: "cursor_inv s" and st: "step a s = Some s'"
    and nc: "\<forall>arg. a \<noteq> CreateChunks arg"
    and ne: "a = ShowNextChunk \<longrightarrow> stream1 (chunks s) \<noteq> [] \<and> stream2 (chunks s) \<noteq> []"
  shows "cursor_inv s'"
proof (cases a)
  case StartFeedbackSession
  then show ?thesis using st by (auto simp: startFeedbackSession_def intro: cursor_inv_zero)
next
  case (UpdateStreamContent sid c)
  then show ?thesis using st inv
    by (auto simp: updateStreamContent_def intro: cursor_inv_same)
next
  case CompleteStreams
  then have "createChunks None (s\<lparr>isComplete := True,
                 currentChunkIndices := \<lparr>stream1 = 0, stream2 = 0\<rparr>\<rparr>) = Some s'"
    using st by (simp add: completeStreams_def)
  from createChunks_cursors [OF this] show ?thesis
    by (intro cursor_inv_zero) simp
next
  case (CreateChunks arg)
  then show ?thesis using nc by simp
next
  case (RecordFeedback sid idx fb now)
  then show ?thesis using st inv
    by (auto simp: recordFeedback_def Let_def intro: cursor_inv_same)
next
  case ShowNextChunk
  then have "get_stream sid (chunks s) \<noteq> []" for sid
    using ne by (cases sid) simp_all
  then have "cursor_ok sid (showNextChunk s)" for sid
    using inv showNextChunk_cursor_ok by (simp add: cursor_inv_iff)
  then show ?thesis using st ShowNextChunk by (auto simp: cursor_inv_iff)
next
  case (ShowNextChunkForStream sid)
  then show ?thesis using st inv showNextChunkForStream_cursor_ok
    by (auto simp: cursor_inv_iff)
next
  case ResetFeedbackSession
  then show ?thesis using st
    by (auto simp: resetFeedbackSession_def INITIAL_STATE_def intro: cursor_inv_zero)
next
  case ResetEverything
  then show ?thesis using st by (auto simp: resetEverything_def intro: cursor_inv_zero)
next
  case (SetSelectedText t sid idx)
  then show ?thesis using st inv
    by (auto simp: setSelectedText_def intro: cursor_inv_same)
next
  case ClearSelectedText
  then show ?thesis using st inv
    by (auto simp: clearSelectedText_def intro: cursor_inv_same)
qed

text \<open>
  A direct \<open>createChunks\<close> replaces the chunk lists and leaves the cursors where they are:
  after the actions of the worked example and one step of the first cursor,
  \<open>createChunks(800)\<close> leaves one chunk and the cursor at 1. \<open>completeStreams\<close> sets the
  cursors to 0 before it creates the chunks.
\<close>

lemma createChunks_keeps_cursors_example:
  "map_option cursor_inv
       (run (example_actions @ [ShowNextChunkForStream Stream1]) INITIAL_STATE)
     = Some True \<and>
   map_option chunks
       (run (example_actions @ [ShowNextChunkForStream Stream1, CreateChunks (Some 800)])
          INITIAL_STATE)
     = Some \<lparr>stream1 = [[0x61, 0x62, 0x63]], stream2 = [[0x64]]\<rparr> \<and>
   map_option currentChunkIndices
       (run (example_actions @ [ShowNextChunkForStream Stream1, CreateChunks (Some 800)])
          INITIAL_STATE)
     = Some \<lparr>stream1 = 1, stream2 = 0\<rparr> \<and>
   map_option cursor_inv
       (run (example_actions @ [ShowNextChunkForStream Stream1, CreateChunks (Some 800)])
          INITIAL_STATE)
     = Some False"
proof -
  have i: "cursor_inv (showNextChunkForStream Stream1 example_state)"
    by (simp add: cursor_inv_def cursor_ok_def showNextChunkForStream_def Let_def example_state_def)
  have p: "responses (showNextChunkForStream Stream1 example_state)
             = \<lparr>stream1 = [0x61, 0x62, 0x63], stream2 = [0x64]\<rparr>"
          "currentChunkIndices (showNextChunkForStream Stream1 example_state)
             = \<lparr>stream1 = 1, stream2 = 0\<rparr>"
    by (simp_all add: showNextChunkForStream_def Let_def example_state_def)
  show ?thesis using i
    by (simp add: run_append run_example_state createChunks_def p createTextChunks_single
          cursor_inv_def cursor_ok_def)
qed

text \<open>
  Claim C2. The cursor invariant \<open>0 \<le> cursor \<le> max 0 (len - 1)\<close> is to hold after every
  operation, and neither advance is to decrease a cursor, also for a stream without chunks.
  \<open>showNextChunk\<close> breaks both: it takes \<open>min (cursor + 1) (len - 1)\<close> without the
  \<open>max 0\<close> that \<open>showNextChunkForStream\<close> has. In the initial state, which satisfies the
  invariant and has no chunks, it moves both cursors from 0 to -1; so does the sequence
  \<open>recordFeedback\<close>, \<open>clearSelectedText\<close>, \<open>showNextChunk\<close> that the feedback panel issues
  on a rating. \<open>showNextChunkForStream\<close> keeps the cursor at 0 in the same state.
\<close>

theorem showNextChunk_without_chunks:
  "cursor_inv INITIAL_STATE \<and>
   chunks INITIAL_STATE = \<lparr>stream1 = [], stream2 = []\<rparr> \<and>
   currentChunkIndices INITIAL_STATE = \<lparr>stream1 = 0, stream2 = 0\<rparr> \<and>
   currentChunkIndices (showNextChunk INITIAL_STATE) = \<lparr>stream1 = - 1, stream2 = - 1\<rparr> \<and>
   \<not> cursor_inv (showNextChunk INITIAL_STATE) \<and>
   map_option currentChunkIndices
       (run [RecordFeedback Stream1 0 example_feedback 1000, ClearSelectedText, ShowNextChunk]
          INITIAL_STATE)
     = Some \<lparr>stream1 = - 1, stream2 = - 1\<rparr> \<and>
   currentChunkIndices (showNextChunkForStream Stream1 INITIAL_STATE)
     = \<lparr>stream1 = 0, stream2 = 0\<rparr> \<and>
   cursor_inv (showNextChunkForStream Stream1 INITIAL_STATE)"
  by (simp add: showNextChunk_def showNextChunkForStream_def recordFeedback_def
        clearSelectedText_def Let_def INITIAL_STATE_def cursor_inv_def cursor_ok_def)

section \<open>The chunks of the store are never empty strings\<close>

lemma loop_returns_positive:
  assumes "createTextChunks_loop N t i acc = Some y"
  shows "i < int (length t) \<longrightarrow> 0 < N"
proof (rule createTextChunks_loop.raw_induct
    [where P = "\<lambda>N t i acc y. i < int (length t) \<longrightarrow> 0 < N", OF _ assms])
  fix f :: "int \<Rightarrow> js_string \<Rightarrow> int \<Rightarrow> js_string list \<Rightarrow> js_string list option"
  fix N t i acc y
  assume IH: "\<And>N t i acc y. f N t i acc = Some y \<Longrightarrow> i < int (length t) \<longrightarrow> 0 < N"
    and eq: "(if i < int (length t)
              then f N t (i + N) (acc @ [substring t i (min (i + N) (int (length t)))])
              else Some acc) = Some y"
  show "i < int (length t) \<longrightarrow> 0 < N"
  proof
    assume lt: "i < int (length t)"
    then have "f N t (i + N) (acc @ [substring t i (min (i + N) (int (length t)))]) = Some y"
      using eq by simp
    then have "i + N < int (length t) \<longrightarrow> 0 < N"
      by (rule IH)
    then show "0 < N" using lt by linarith
  qed
qed

lemma createTextChunks_nonempty:
  assumes "createTextChunks N t = Some cs"
  shows "[] \<notin> set cs"
proof (cases "t = []")
  case True
  then show ?thesis using assms by (simp add: createTextChunks_def)
next
  case False
  then have "createTextChunks_loop N t 0 [] = Some cs"
    using assms by (simp add: createTextChunks_def)
  then have N: "0 < N"
    using loop_returns_positive [of N t 0 "[]" cs] False by simp
  then have "cs = slices (nat N) t 0"
    using assms createTextChunks_slices [OF N, of t] by simp
  then show ?thesis
    using slices_bounds [of "nat N" "[]" t 0] N by auto
qed

lemma createChunks_chunks_nonempty:
  assumes "createChunks arg s = Some s'"
  shows "chunks_nonempty s'"
  using assms
  by (auto simp: createChunks_def Let_def chunks_nonempty_def split: option.splits
           dest: createTextChunks_nonempty)

lemma step_chunks_nonempty:
  assumes "chunks_nonempty s" and "step a s = Some s'"
  shows "chunks_nonempty s'"
proof (cases a)
  case CompleteStreams
  then show ?thesis using assms(2)
    by (simp add: completeStreams_def createChunks_chunks_nonempty)
next
  case (CreateChunks arg)
  then show ?thesis using assms(2) by (simp add: createChunks_chunks_nonempty)
qed (use assms in \<open>auto simp: chunks_nonempty_def startFeedbackSession_def updateStreamContent_def
       recordFeedback_def showNextChunk_def showNextChunkForStream_def resetFeedbackSession_def
       resetEverything_def setSelectedText_def clearSelectedText_def INITIAL_STATE_def Let_def\<close>)

lemma run_chunks_nonempty:
  "run acts s = Some s' \<Longrightarrow> chunks_nonempty s \<Longrightarrow> chunks_nonempty s'"
proof (induction acts arbitrary: s)
  case Nil
  then show ?case by simp
next
  case (Cons a acts)
  then obtain s1 where s1: "step a s = Some s1" "run acts s1 = Some s'"
    by (auto split: option.splits)
  have "chunks_nonempty s1"
    using Cons.prems(2) s1(1) by (rule step_chunks_nonempty)
  with Cons.IH s1(2) show ?case by blast
qed

lemma chunks_nonempty_INITIAL_STATE: "chunks_nonempty INITIAL_STATE"
  by (simp add: chunks_nonempty_def INITIAL_STATE_def)

lemma chunks_nonempty_get: "chunks_nonempty s \<Longrightarrow> [] \<notin> set (get_stream sid (chunks s))"
  by (cases sid) (simp_all add: chunks_nonempty_def)

text \<open>
  Claim C10. In every state that a sequence of actions yields from the initial state,
  \<open>getDecoratedChunk\<close> returns the empty string for an index with no chunk at that
  position; for an index with a chunk it returns the chunk between the two arrow decorations
  when the index is the stream's cursor, and the chunk alone otherwise. It is a read: it
  returns a string and no state.
\<close>

theorem getDecoratedChunk_marks_current:
  assumes "run acts INITIAL_STATE = Some s"
  shows "(\<not> (0 \<le> idx \<and> idx < int (length (get_stream sid (chunks s))))
            \<longrightarrow> getDecoratedChunk sid idx s = []) \<and>
         (0 \<le> idx \<and> idx < int (length (get_stream sid (chunks s)))
            \<longrightarrow> getDecoratedChunk sid idx s
                  = (if idx = get_stream sid (currentChunkIndices s)
                     then [0x27A1, 0xFE0F, 0x20] @ get_stream sid (chunks s) ! nat idx
                            @ [0x20, 0x2B05, 0xFE0F]
                     else get_stream sid (chunks s) ! nat idx))"
proof -
  have n: "[] \<notin> set (get_stream sid (chunks s))"
    using run_chunks_nonempty [OF assms chunks_nonempty_INITIAL_STATE]
    by (rule chunks_nonempty_get)
  show ?thesis
  proof (cases "0 \<le> idx \<and> idx < int (length (get_stream sid (chunks s)))")
    case True
    then have k: "nat idx < length (get_stream sid (chunks s))" by linarith
    then have "get_stream sid (chunks s) ! nat idx \<noteq> []"
      using n nth_mem by metis
    then show ?thesis using True k
      by (simp add: getDecoratedChunk_def chunk_at_def Let_def decoration_prefix_def
            decoration_suffix_def)
  next
    case False
    then have "chunk_at (get_stream sid (chunks s)) idx = None"
      by (auto simp: chunk_at_def)
    then have "getDecoratedChunk sid idx s = []"
      by (simp add: getDecoratedChunk_def Let_def)
    then show ?thesis using False by blast
  qed
qed

theorem getDecoratedChunk_marks_current_witness:
  "run example_actions INITIAL_STATE = Some example_state \<and>
   getDecoratedChunk Stream1 0 example_state = [0x27A1, 0xFE0F, 0x20, 0x61, 0x62, 0x20, 0x2B05, 0xFE0F] \<and>
   getDecoratedChunk Stream1 1 example_state = [0x63] \<and>
   getDecoratedChunk Stream1 2 example_state = [] \<and>
   getDecoratedChunk Stream1 (-1) example_state = []"
proof -
  note r = run_example_state
  have c: "chunks example_state = \<lparr>stream1 = [[0x61, 0x62], [0x63]], stream2 = [[0x64]]\<rparr>"
          "currentChunkIndices example_state = \<lparr>stream1 = 0, stream2 = 0\<rparr>"
    by (simp_all add: example_state_def)
  have "getDecoratedChunk Stream1 0 example_state = [0x27A1, 0xFE0F, 0x20, 0x61, 0x62, 0x20, 0x2B05, 0xFE0F]"
    using getDecoratedChunk_marks_current [OF r, of 0 Stream1] by (simp add: c)
  moreover have "getDecoratedChunk Stream1 1 example_state = [0x63]"
    using getDecoratedChunk_marks_current [OF r, of 1 Stream1] by (simp add: c)
  moreover have "getDecoratedChunk Stream1 2 example_state = []"
    using getDecoratedChunk_marks_current [OF r, of 2 Stream1] by (simp add: c)
  moreover have "getDecoratedChunk Stream1 (-1) example_state = []"
    using getDecoratedChunk_marks_current [OF r, of "-1" Stream1] by (simp add: c)
  ultimately show ?thesis using r by blast
qed

section \<open>The retry predicate\<close>

text \<open>
  Claim C5. \<open>retry\<close> answers false for every failure count of 1 or more and for every error
  that is not an authorization failure; it answers true only for an authorization failure at
  failure count 0. So over the failure counts 0, 1, 2, ... of one session at most one retry
  is granted, and a second authorization failure, at count 1, is not retried.
\<close>

theorem retry_only_first_unauthorized:
  "((1 \<le> failCount \<or> \<not> isUnauthorized err) \<longrightarrow> \<not> retry isUnauthorized failCount err) \<and>
   (retry isUnauthorized failCount err \<longrightarrow> isUnauthorized err \<and> failCount < 1) \<and>
   (0 \<le> failCount \<and> retry isUnauthorized failCount err \<longrightarrow> failCount = 0) \<and>
   retry isUnauthorized 0 err = isUnauthorized err \<and>
   \<not> retry isUnauthorized 1 err"
  by (simp add: retry_def)

theorem retry_only_first_unauthorized_witness:
  "isUnauthorizedError \<lparr>message = [], status = 401\<rparr> \<and>
   retry isUnauthorizedError 0 \<lparr>message = [], status = 401\<rparr> \<and>
   (1::int) \<le> 1 \<and>
   \<not> retry isUnauthorizedError 1 \<lparr>message = [], status = 401\<rparr> \<and>
   \<not> isUnauthorizedError \<lparr>message = [], status = 500\<rparr> \<and>
   \<not> retry isUnauthorizedError 0 \<lparr>message = [], status = 500\<rparr>"
  using retry_only_first_unauthorized [of 1 isUnauthorizedError "\<lparr>message = [], status = 401\<rparr>"]
        retry_only_first_unauthorized [of 0 isUnauthorizedError "\<lparr>message = [], status = 500\<rparr>"]
        retry_only_first_unauthorized [of 0 isUnauthorizedError "\<lparr>message = [], status = 401\<rparr>"]
  by (simp add: isUnauthorizedError_def)

section \<open>The conversation cache\<close>

text \<open>
  Claim C9. \<open>getUpdatedConversations\<close> maps the cached list position by position: an entry
  whose id is the given conversation id gets the given description and the current time as
  \<open>updatedAt\<close>, every other entry is returned as it is, ids and all other keys are kept, and
  the list keeps its length. Without a cached list there is still none.
\<close>

theorem getUpdatedConversations_replace_by_id:
  "getUpdatedConversations conversationId descriptionArg nowISO None = None \<and>
   (\<exists>cs'. getUpdatedConversations conversationId descriptionArg nowISO (Some cs) = Some cs' \<and>
      length cs' = length cs \<and>
      (\<forall>i < length cs.
         (Some (conv_id (cs ! i)) = conversationId \<longrightarrow>
            cs' ! i = (cs ! i)\<lparr>description := Some (case descriptionArg of None \<Rightarrow> [] | Some d \<Rightarrow> d),
                               updatedAt := Some nowISO\<rparr>) \<and>
         (Some (conv_id (cs ! i)) \<noteq> conversationId \<longrightarrow> cs' ! i = cs ! i) \<and>
         conv_id (cs' ! i) = conv_id (cs ! i) \<and>
         ConversationPublic.more (cs' ! i) = ConversationPublic.more (cs ! i)))"
  by (simp add: getUpdatedConversations_def Let_def)

theorem getUpdatedConversations_replace_by_id_witness:
  "getUpdatedConversations (Some [0x62]) (Some [0x68, 0x69]) [0x32]
     (Some [\<lparr>conv_id = [0x61], description = None, updatedAt = None\<rparr>,
            \<lparr>conv_id = [0x62], description = Some [0x6F], updatedAt = None\<rparr>])
   = Some [\<lparr>conv_id = [0x61], description = None, updatedAt = None\<rparr>,
           \<lparr>conv_id = [0x62], description = Some [0x68, 0x69], updatedAt = Some [0x32]\<rparr>]"
proof -
  let ?cs = "[\<lparr>conv_id = [0x61], description = None, updatedAt = None\<rparr>,
              \<lparr>conv_id = [0x62 :: code_unit], description = Some [0x6F :: code_unit],
               updatedAt = None :: js_string option\<rparr>]"
  from getUpdatedConversations_replace_by_id [of "Some [0x62]" "Some [0x68, 0x69]" "[0x32]" ?cs]
  obtain cs' where c: "getUpdatedConversations (Some [0x62]) (Some [0x68, 0x69]) [0x32] (Some ?cs) = Some cs'"
    and l: "length cs' = length ?cs"
    and n: "\<forall>i < length ?cs.
         (Some (conv_id (?cs ! i)) = Some [0x62] \<longrightarrow>
            cs' ! i = (?cs ! i)\<lparr>description := Some [0x68, 0x69], updatedAt := Some [0x32]\<rparr>) \<and>
         (Some (conv_id (?cs ! i)) \<noteq> Some [0x62] \<longrightarrow> cs' ! i = ?cs ! i)"
    by auto
  have "cs' ! 0 = \<lparr>conv_id = [0x61], description = None, updatedAt = None\<rparr>"
    using n [rule_format, of 0] by simp
  moreover have "cs' ! 1 = \<lparr>conv_id = [0x62], description = Some [0x68, 0x69], updatedAt = Some [0x32]\<rparr>"
    using n [rule_format, of 1] by simp
  moreover have "length cs' = 2" using l by simp
  ultimately have "cs' = [\<lparr>conv_id = [0x61], description = None, updatedAt = None\<rparr>,
           \<lparr>conv_id = [0x62], description = Some [0x68, 0x69], updatedAt = Some [0x32]\<rparr>]"
    by (auto simp: list_eq_iff_nth_eq less_Suc_eq numeral_2_eq_2)
  with c show ?thesis by simp
qed


end
